theory Spec2Isabelle
  imports Main
begin

section \<open>The script import service (services/scriptImportService.ts)\<close>

text \<open>
  A shallow embedding of the screenplay import and export pipeline: the Fountain parser
  \<open>parseFountain\<close>, the Final Draft parser \<open>parseFDX\<close> and the beat extractor
  \<open>exportToDirector\<close>.

  A JavaScript string is a sequence of UTF-16 code units. It is modelled as a \<open>string\<close>
  whose characters stand for the code units \<open>0x00 .. 0xFF\<close> of the same value (the ISO
  8859-1 range). White space, line terminators, the classes of the regular expressions and
  the case mappings are those of ECMAScript on that range. Two code units of the range have
  an upper-case form outside it (\<open>0xB5\<close> and \<open>0xFF\<close>); the model leaves them unchanged.
\<close>

subsection \<open>Strings and arrays of the host language\<close>

datatype error = TypeError

definition isWhite :: "char \<Rightarrow> bool" where
  \<comment> \<open>WhiteSpace and LineTerminator: what \<open>\s\<close> matches and \<open>trim\<close> removes\<close>
  "isWhite ch = (ch \<in> set [CHR 0x09, CHR 0x0A, CHR 0x0B, CHR 0x0C, CHR 0x0D, CHR 0x20, CHR 0xA0])"

definition isLineTerminator :: "char \<Rightarrow> bool" where
  "isLineTerminator ch = (ch = CHR 0x0A \<or> ch = CHR 0x0D)"

definition trim :: "string \<Rightarrow> string" where
  "trim s = rev (dropWhile isWhite (rev (dropWhile isWhite s)))"

fun split_nl :: "string \<Rightarrow> string list" where
  \<comment> \<open>\<open>text.split('\n')\<close>: the pieces between the newlines, never an empty array\<close>
  "split_nl [] = [[]]"
| "split_nl (ch # cs) =
     (if ch = CHR 0x0A then [] # split_nl cs
      else (case split_nl cs of [] \<Rightarrow> [[ch]] | l # ls \<Rightarrow> (ch # l) # ls))"

definition lower_letters :: "char list" where
  \<comment> \<open>the letters with an upper-case form in the range: a to z, and \<open>0xE0 .. 0xFE\<close>
      without the division sign\<close>
  "lower_letters = ''abcdefghijklmnopqrstuvwxyz'' @
       [CHR 0xE0, CHR 0xE1, CHR 0xE2, CHR 0xE3, CHR 0xE4, CHR 0xE5, CHR 0xE6, CHR 0xE7,
        CHR 0xE8, CHR 0xE9, CHR 0xEA, CHR 0xEB, CHR 0xEC, CHR 0xED, CHR 0xEE, CHR 0xEF, CHR 0xF0,
        CHR 0xF1, CHR 0xF2, CHR 0xF3, CHR 0xF4, CHR 0xF5, CHR 0xF6, CHR 0xF8, CHR 0xF9,
        CHR 0xFA, CHR 0xFB, CHR 0xFC, CHR 0xFD, CHR 0xFE]"

definition upper_letters :: "char list" where
  \<comment> \<open>their upper-case forms, in the same order\<close>
  "upper_letters = ''ABCDEFGHIJKLMNOPQRSTUVWXYZ'' @
       [CHR 0xC0, CHR 0xC1, CHR 0xC2, CHR 0xC3, CHR 0xC4, CHR 0xC5, CHR 0xC6, CHR 0xC7,
        CHR 0xC8, CHR 0xC9, CHR 0xCA, CHR 0xCB, CHR 0xCC, CHR 0xCD, CHR 0xCE, CHR 0xCF, CHR 0xD0,
        CHR 0xD1, CHR 0xD2, CHR 0xD3, CHR 0xD4, CHR 0xD5, CHR 0xD6, CHR 0xD8, CHR 0xD9,
        CHR 0xDA, CHR 0xDB, CHR 0xDC, CHR 0xDD, CHR 0xDE]"

definition upperChar :: "char \<Rightarrow> char" where
  "upperChar ch = (case map_of (zip lower_letters upper_letters) ch of Some u \<Rightarrow> u | None \<Rightarrow> ch)"

definition lowerChar :: "char \<Rightarrow> char" where
  "lowerChar ch = (case map_of (zip upper_letters lower_letters) ch of Some l \<Rightarrow> l | None \<Rightarrow> ch)"

definition toUpperCase :: "string \<Rightarrow> string" where
  \<comment> \<open>the sharp s (\<open>0xDF\<close>) becomes two letters\<close>
  "toUpperCase s = concat (map (\<lambda>ch. if ch = CHR 0xDF then ''SS'' else [upperChar ch]) s)"

definition toLowerCase :: "string \<Rightarrow> string" where
  "toLowerCase s = map lowerChar s"

definition startsWith :: "string \<Rightarrow> string \<Rightarrow> bool" where
  "startsWith s p = (take (length p) s = p)"

definition endsWith :: "string \<Rightarrow> string \<Rightarrow> bool" where
  "endsWith s p = (length p \<le> length s \<and> drop (length s - length p) s = p)"

definition array_includes :: "'a list \<Rightarrow> 'a \<Rightarrow> bool" where
  "array_includes xs x = (x \<in> set xs)"

definition at_index :: "'a list \<Rightarrow> nat \<Rightarrow> 'a option" where
  \<comment> \<open>\<open>xs[i]\<close>: \<open>undefined\<close> out of range\<close>
  "at_index xs i = (if i < length xs then Some (xs ! i) else None)"

definition last_index :: "'a list \<Rightarrow> 'a option" where
  \<comment> \<open>\<open>xs[xs.length - 1]\<close>: \<open>undefined\<close> on the empty array\<close>
  "last_index xs = (if xs = [] then None else Some (last xs))"

definition findLast :: "('a \<Rightarrow> bool) \<Rightarrow> 'a list \<Rightarrow> 'a option" where
  "findLast P xs = find P (rev xs)"

definition set_add :: "'a \<Rightarrow> 'a list \<Rightarrow> 'a list" where
  \<comment> \<open>\<open>Set.prototype.add\<close>; a \<open>Set\<close> is the list of its members in insertion order,
      which is what \<open>Array.from\<close> and the spread return\<close>
  "set_add x xs = (if x \<in> set xs then xs else xs @ [x])"

definition new_Set :: "'a list \<Rightarrow> 'a list" where
  "new_Set xs = foldl (\<lambda>acc x. set_add x acc) [] xs"

definition truthy :: "string option \<Rightarrow> bool" where
  \<comment> \<open>a string or \<open>undefined\<close>/\<open>null\<close> in a condition: the empty string is falsy too\<close>
  "truthy v = (case v of None \<Rightarrow> False | Some s \<Rightarrow> s \<noteq> [])"

definition or_else :: "string option \<Rightarrow> string \<Rightarrow> string" where
  \<comment> \<open>\<open>v || d\<close>\<close>
  "or_else v d = (case v of None \<Rightarrow> d | Some s \<Rightarrow> if s = [] then d else s)"

subsection \<open>Regular expressions\<close>

text \<open>
  The backtracking matcher of ECMAScript on the constructs the source uses. \<open>rmatch r s c\<close>
  lists, in the order the engine explores them, the ways \<open>r\<close> matches a prefix of \<open>s\<close>: the
  input left over and the captures. The engine's answer is the head of the list. An
  iteration of a quantifier that consumes nothing is rejected, as in the language.
\<close>

datatype regex =
    Chr "char \<Rightarrow> bool"
  | Eps
  | Eos
  | Seq regex regex
  | Alt regex regex
  | Opt regex
  | Star regex
  | LazyStar regex
  | Group nat regex

type_synonym captures = "nat \<Rightarrow> string option"

function rmatch :: "regex \<Rightarrow> string \<Rightarrow> captures \<Rightarrow> (string \<times> captures) list" where
  "rmatch (Chr P) s c = (case s of [] \<Rightarrow> [] | x # xs \<Rightarrow> if P x then [(xs, c)] else [])"
| "rmatch Eps s c = [(s, c)]"
| "rmatch Eos s c = (if s = [] then [(s, c)] else [])"
| "rmatch (Seq a b) s c = concat (map (\<lambda>(s', c'). rmatch b s' c') (rmatch a s c))"
| "rmatch (Alt a b) s c = rmatch a s c @ rmatch b s c"
| "rmatch (Opt a) s c = filter (\<lambda>(s', c'). length s' < length s) (rmatch a s c) @ [(s, c)]"
| "rmatch (Star a) s c =
     concat (map (\<lambda>(s', c'). if length s' < length s then rmatch (Star a) s' c' else [])
                 (rmatch a s c)) @ [(s, c)]"
| "rmatch (LazyStar a) s c =
     (s, c) # concat (map (\<lambda>(s', c'). if length s' < length s then rmatch (LazyStar a) s' c' else [])
                          (rmatch a s c))"
| "rmatch (Group n a) s c =
     map (\<lambda>(s', c'). (s', c'(n := Some (take (length s - length s') s)))) (rmatch a s c)"
  by pat_completeness auto
termination
  by (relation "measures [\<lambda>(r, s, c). size r, \<lambda>(r, s, c). length s]") auto

definition no_captures :: captures where
  "no_captures = (\<lambda>n. None)"

definition match_start :: "regex \<Rightarrow> string \<Rightarrow> captures option" where
  \<comment> \<open>a pattern that begins with \<open>^\<close>: it can match at index 0 only\<close>
  "match_start r s = (case rmatch r s no_captures of [] \<Rightarrow> None | (rest, c) # _ \<Rightarrow> Some c)"

fun exec_from :: "regex \<Rightarrow> string \<Rightarrow> nat \<Rightarrow> (nat \<times> string \<times> captures) option" where
  \<comment> \<open>a pattern without \<open>^\<close>: the leftmost index at which it matches; the result is the
      index, the input after the match and the captures\<close>
  "exec_from r [] i =
     (case rmatch r [] no_captures of [] \<Rightarrow> None | (rest, c) # _ \<Rightarrow> Some (i, rest, c))"
| "exec_from r (x # xs) i =
     (case rmatch r (x # xs) no_captures of
        [] \<Rightarrow> exec_from r xs (Suc i)
      | (rest, c) # _ \<Rightarrow> Some (i, rest, c))"

definition match_anywhere :: "regex \<Rightarrow> string \<Rightarrow> captures option" where
  "match_anywhere r s = map_option (\<lambda>(i, rest, c). c) (exec_from r s 0)"

definition replace_first :: "regex \<Rightarrow> string \<Rightarrow> string" where
  \<comment> \<open>\<open>s.replace(r, '')\<close> for a pattern without the \<open>g\<close> flag\<close>
  "replace_first r s =
     (case exec_from r s 0 of None \<Rightarrow> s | Some (i, rest, c) \<Rightarrow> take i s @ rest)"

definition strip_white :: "string \<Rightarrow> string" where
  \<comment> \<open>\<open>s.replace(/\s/g, '')\<close>\<close>
  "strip_white s = filter (\<lambda>ch. \<not> isWhite ch) s"

definition lit :: "char \<Rightarrow> regex" where
  "lit a = Chr (\<lambda>ch. ch = a)"

definition lit_i :: "char \<Rightarrow> regex" where
  \<comment> \<open>a pattern character under the \<open>i\<close> flag: it matches the code units with its
      canonical (upper-case) form, which are its two case forms\<close>
  "lit_i a = Chr (\<lambda>ch. ch = upperChar a \<or> ch = lowerChar a)"

definition str_i :: "string \<Rightarrow> regex" where
  \<comment> \<open>a literal sequence under the \<open>i\<close> flag\<close>
  "str_i p = foldr (\<lambda>a r. Seq (lit_i a) r) p Eps"

definition any :: regex where
  \<comment> \<open>\<open>.\<close>\<close>
  "any = Chr (\<lambda>ch. \<not> isLineTerminator ch)"

definition white :: regex where
  \<comment> \<open>\<open>\s\<close>\<close>
  "white = Chr isWhite"

definition rplus :: "regex \<Rightarrow> regex" where
  \<comment> \<open>\<open>r+\<close>\<close>
  "rplus r = Seq r (Star r)"

definition rplus_lazy :: "regex \<Rightarrow> regex" where
  \<comment> \<open>\<open>r+?\<close>\<close>
  "rplus_lazy r = Seq r (LazyStar r)"

definition alts :: "regex list \<Rightarrow> regex" where
  \<comment> \<open>\<open>r1|r2|...|rn\<close>\<close>
  "alts rs = foldr Alt (butlast rs) (last rs)"

subsection \<open>The patterns of the source\<close>

definition heading_tokens :: regex where
  \<comment> \<open>\<open>(?:INT\.|EXT\.|INT\/EXT\.|I\/E\.)\<close> under \<open>i\<close>\<close>
  "heading_tokens = alts [str_i ''INT.'', str_i ''EXT.'', str_i ''INT/EXT.'', str_i ''I/E.'']"

definition title_re :: regex where
  \<comment> \<open>\<open>/^Title:\s*(.+)/i\<close>\<close>
  "title_re = Seq (str_i ''Title:'') (Seq (Star white) (Group 1 (rplus any)))"

definition author_re :: regex where
  \<comment> \<open>\<open>/^(?:Author|Authors|Credit):\s*(.+)/i\<close>\<close>
  "author_re =
     Seq (alts [str_i ''Author'', str_i ''Authors'', str_i ''Credit''])
       (Seq (str_i '':'') (Seq (Star white) (Group 1 (rplus any))))"

definition interior_re :: regex where
  \<comment> \<open>\<open>/^(?:INT|I\/E)/i\<close>\<close>
  "interior_re = alts [str_i ''INT'', str_i ''I/E'']"

definition isDash :: "char \<Rightarrow> bool" where
  \<comment> \<open>the class between the brackets of the location pattern: the hyphen and the three
      code units \<open>0xE2\<close>, \<open>0x20AC\<close>, \<open>0x201C\<close> that stand in the source text where an en
      dash was meant. Only the first lies in the modelled range; it is a letter, and under
      the \<open>i\<close> flag the class matches its upper-case form \<open>0xC2\<close> as well\<close>
  "isDash ch = (ch = CHR ''-'' \<or> ch = CHR 0xE2 \<or> ch = CHR 0xC2)"

definition dash :: regex where
  "dash = Chr isDash"

definition location_re :: regex where
  \<comment> \<open>\<open>/(?:INT\.|EXT\.|INT\/EXT\.|I\/E\.)\s*(.+?)(?:\s*[-...]\s*(.+))?$/i\<close>\<close>
  "location_re =
     Seq heading_tokens
       (Seq (Star white)
         (Seq (Group 1 (rplus_lazy any))
           (Seq (Opt (Seq (Star white) (Seq dash (Seq (Star white) (Group 2 (rplus any))))))
                Eos)))"

definition upper_AZ :: regex where
  \<comment> \<open>\<open>[A-Z]\<close>\<close>
  "upper_AZ = Chr (\<lambda>ch. ch \<in> set ''ABCDEFGHIJKLMNOPQRSTUVWXYZ'')"

definition cue_class :: regex where
  \<comment> \<open>\<open>[A-Z\s\.\-\']\<close>\<close>
  "cue_class =
     Chr (\<lambda>ch. ch \<in> set ''ABCDEFGHIJKLMNOPQRSTUVWXYZ'' \<or> isWhite ch \<or>
               ch = CHR ''.'' \<or> ch = CHR ''-'' \<or> ch = CHR 0x27)"

definition character_re :: regex where
  \<comment> \<open>\<open>/^([A-Z][A-Z\s\.\-\']+)(?:\s*\(.*\))?$/\<close>\<close>
  "character_re =
     Seq (Group 1 (Seq upper_AZ (rplus cue_class)))
       (Seq (Opt (Seq (Star white) (Seq (lit CHR ''('') (Seq (Star any) (lit CHR '')'')))))
            Eos)"

definition transition_re :: regex where
  \<comment> \<open>\<open>/(CUT TO|FADE TO|DISSOLVE TO|SMASH CUT|FADE IN|FADE OUT):?$/i\<close>\<close>
  "transition_re =
     Seq (Group 1 (alts [str_i ''CUT TO'', str_i ''FADE TO'', str_i ''DISSOLVE TO'',
                         str_i ''SMASH CUT'', str_i ''FADE IN'', str_i ''FADE OUT'']))
       (Seq (Opt (lit CHR '':'')) Eos)"

definition extension_re :: regex where
  \<comment> \<open>\<open>/\s*\(.*\)$/\<close>\<close>
  "extension_re = Seq (Star white) (Seq (lit CHR ''('') (Seq (Star any) (Seq (lit CHR '')'') Eos)))"

definition titleMatch :: "string \<Rightarrow> string option" where
  \<comment> \<open>\<open>line.match(/^Title:\s*(.+)/i)\<close>, as its group 1; the group takes part in every
      match, so \<open>None\<close> is the result \<open>null\<close>\<close>
  "titleMatch line = (case match_start title_re line of None \<Rightarrow> None | Some c \<Rightarrow> c 1)"

definition authorMatch :: "string \<Rightarrow> string option" where
  "authorMatch line = (case match_start author_re line of None \<Rightarrow> None | Some c \<Rightarrow> c 1)"

definition isHeading :: "string \<Rightarrow> bool" where
  \<comment> \<open>\<open>line.match(/^(?:INT\.|EXT\.|INT\/EXT\.|I\/E\.)/i)\<close> as a condition\<close>
  "isHeading line = (match_start heading_tokens line \<noteq> None)"

definition isInterior :: "string \<Rightarrow> bool" where
  \<comment> \<open>\<open>/^(?:INT|I\/E)/i.test(s)\<close>\<close>
  "isInterior s = (match_start interior_re s \<noteq> None)"

definition locMatch :: "string \<Rightarrow> captures option" where
  "locMatch s = match_anywhere location_re s"

definition charMatch :: "string \<Rightarrow> captures option" where
  "charMatch s = match_start character_re s"

definition isTransition :: "string \<Rightarrow> bool" where
  "isTransition s = (match_anywhere transition_re s \<noteq> None)"

definition headingLocation :: "string \<Rightarrow> string" where
  \<comment> \<open>\<open>locMatch?.[1]?.trim() || s\<close>\<close>
  "headingLocation s =
     or_else (case locMatch s of None \<Rightarrow> None | Some c \<Rightarrow> map_option trim (c 1)) s"

definition headingTimeOfDay :: "string \<Rightarrow> string" where
  \<comment> \<open>\<open>locMatch?.[2]?.trim() || 'DAY'\<close>\<close>
  "headingTimeOfDay s =
     or_else (case locMatch s of None \<Rightarrow> None | Some c \<Rightarrow> map_option trim (c 2)) ''DAY''"


subsection \<open>The data model\<close>

datatype ElementType = Action | Dialogue | Parenthetical | Transition | Character

record SceneElement =
  type :: ElementType
  content :: string
  character :: "string option"

record ParsedScene =
  sceneNumber :: nat
  heading :: string
  location :: string
  timeOfDay :: string
  interior :: bool
  scene_content :: "SceneElement list"  \<comment> \<open>the field \<open>content\<close> of a scene\<close>

datatype Format = Pdf | Fdx | Fountain | Unknown

record ScriptMetadata =
  format :: Format
  pageCount :: "nat option"
  importedAt :: nat

record ParsedScript =
  title :: "string option"
  authors :: "string list option"
  rawText :: string
  scenes :: "ParsedScene list"
  characters :: "string list"
  locations :: "string list"
  metadata :: ScriptMetadata

subsection \<open>The local variables both parsers share\<close>

text \<open>
  \<open>currentScene\<close> refers to an object that is also an element of \<open>scenes\<close>, and the parsers
  change that object through \<open>currentScene\<close>. The reference is modelled as the index of the
  object in \<open>scenes\<close>, \<open>None\<close> for \<open>null\<close>.
\<close>

record parser_vars =
  v_scenes :: "ParsedScene list"
  v_characters :: "string list"
  v_locations :: "string list"
  v_currentScene :: "nat option"
  v_sceneNumber :: nat

definition initial_vars :: parser_vars where
  "initial_vars =
     \<lparr>v_scenes = [], v_characters = [], v_locations = [], v_currentScene = None,
      v_sceneNumber = 0\<rparr>"

definition open_scene :: "string \<Rightarrow> parser_vars \<Rightarrow> parser_vars" where
  \<comment> \<open>the branch of a scene heading, on the heading text \<open>h\<close>\<close>
  "open_scene h v =
     (let sceneNumber = v_sceneNumber v + 1;
          isInt = isInterior h;
          location = headingLocation h;
          timeOfDay = headingTimeOfDay h
      in v\<lparr>v_sceneNumber := sceneNumber,
            v_locations := set_add (toUpperCase location) (v_locations v),
            v_currentScene := Some (length (v_scenes v)),
            v_scenes := v_scenes v @
              [\<lparr>sceneNumber = sceneNumber, heading = h, location = location,
                timeOfDay = timeOfDay, interior = isInt, scene_content = []\<rparr>]\<rparr>)"

definition ensure_scene :: "parser_vars \<Rightarrow> parser_vars" where
  \<comment> \<open>\<open>if (!currentScene) { ... }\<close>\<close>
  "ensure_scene v =
     (if v_currentScene v = None then
        (let sceneNumber = v_sceneNumber v + 1
         in v\<lparr>v_sceneNumber := sceneNumber,
               v_currentScene := Some (length (v_scenes v)),
               v_scenes := v_scenes v @
                 [\<lparr>sceneNumber = sceneNumber, heading = ''OPENING'', location = ''UNKNOWN'',
                   timeOfDay = ''DAY'', interior = True, scene_content = []\<rparr>]\<rparr>)
      else v)"

definition current_scene :: "parser_vars \<Rightarrow> error + (nat \<times> ParsedScene)" where
  \<comment> \<open>reading a property of \<open>currentScene\<close>: a TypeError when it is \<open>null\<close>\<close>
  "current_scene v =
     (case v_currentScene v of
        None \<Rightarrow> Inl TypeError
      | Some k \<Rightarrow> (case at_index (v_scenes v) k of None \<Rightarrow> Inl TypeError | Some sc \<Rightarrow> Inr (k, sc)))"

definition set_content :: "SceneElement list \<Rightarrow> parser_vars \<Rightarrow> error + parser_vars" where
  \<comment> \<open>the content array of the current scene after a change in place\<close>
  "set_content es v =
     (case current_scene v of
        Inl e \<Rightarrow> Inl e
      | Inr (k, sc) \<Rightarrow> Inr (v\<lparr>v_scenes := (v_scenes v)[k := sc\<lparr>scene_content := es\<rparr>]\<rparr>))"

definition push_content :: "SceneElement \<Rightarrow> parser_vars \<Rightarrow> error + parser_vars" where
  \<comment> \<open>\<open>currentScene.content.push(e)\<close>\<close>
  "push_content e v =
     (case current_scene v of
        Inl err \<Rightarrow> Inl err
      | Inr (k, sc) \<Rightarrow> set_content (scene_content sc @ [e]) v)"

definition lastCharacter :: "SceneElement list \<Rightarrow> string option" where
  \<comment> \<open>\<open>content.findLast(e => e.type === 'character')?.character\<close>\<close>
  "lastCharacter es =
     (case findLast (\<lambda>e. type e = Character) es of None \<Rightarrow> None | Some e \<Rightarrow> character e)"

subsection \<open>The Fountain parser\<close>

function titlePage :: "string list \<Rightarrow> nat \<Rightarrow> string \<Rightarrow> string list \<Rightarrow> error + (nat \<times> string \<times> string list)" where
  \<comment> \<open>the first loop, from the index \<open>i\<close>: the index, the title and the authors it ends with\<close>
  "titlePage lines i ttl auths =
     (if i < length lines \<and> i < 50 then
        (case at_index lines i of
           None \<Rightarrow> Inl TypeError
         | Some l \<Rightarrow>
             (let line = trim l
              in if line = [] then titlePage lines (i + 1) ttl auths
                 else (case titleMatch line of
                         Some t \<Rightarrow> titlePage lines (i + 1) t auths
                       | None \<Rightarrow>
                          (case authorMatch line of
                             Some a \<Rightarrow> titlePage lines (i + 1) ttl (auths @ [a])
                           | None \<Rightarrow>
                               if isHeading line then Inr (i, ttl, auths)
                               else titlePage lines (i + 1) ttl auths))))
      else Inr (i, ttl, auths))"
  by pat_completeness auto
termination
  by (relation "measure (\<lambda>(lines, i, ttl, auths). length lines - i)") auto

definition reserved :: "string list" where
  "reserved = [''INT'', ''EXT'', ''CUT TO'', ''FADE IN'', ''FADE OUT'', ''DISSOLVE TO'']"

definition characterCue :: "string \<Rightarrow> string option" where
  \<comment> \<open>the two nested conditions of the character cue: the name when both hold (group 1
      takes part in every match of the pattern)\<close>
  "characterCue trimmed =
     (case charMatch trimmed of
        None \<Rightarrow> None
      | Some c \<Rightarrow>
          if length trimmed < 40 \<and> \<not> array_includes trimmed CHR '':'' then
            (case c 1 of
               None \<Rightarrow> None
             | Some g \<Rightarrow> (let char = trim g in if \<not> array_includes reserved char then Some char else None))
          else None)"

definition isParenthetical :: "string \<Rightarrow> bool" where
  "isParenthetical trimmed = (startsWith trimmed ''('' \<and> endsWith trimmed '')'')"

definition continuation :: "string \<Rightarrow> parser_vars \<Rightarrow> error + parser_vars" where
  \<comment> \<open>dialogue continuation, and the default\<close>
  "continuation trimmed v =
     (case current_scene v of
        Inl err \<Rightarrow> Inl err
      | Inr (k, sc) \<Rightarrow>
          (case last_index (scene_content sc) of
             Some lastElement \<Rightarrow>
               if type lastElement = Character \<or> type lastElement = Parenthetical \<or>
                  type lastElement = Dialogue then
                 (if type lastElement = Dialogue then
                    set_content (butlast (scene_content sc) @
                      [lastElement\<lparr>content := content lastElement @ '' '' @ trimmed\<rparr>]) v
                  else
                    (let char = lastCharacter (scene_content sc)
                     in push_content \<lparr>type = Dialogue, content = trimmed, character = char\<rparr> v))
               else push_content \<lparr>type = Action, content = trimmed, character = None\<rparr> v
           | None \<Rightarrow> push_content \<lparr>type = Action, content = trimmed, character = None\<rparr> v))"

definition bodyLine :: "string \<Rightarrow> parser_vars \<Rightarrow> error + parser_vars" where
  \<comment> \<open>one iteration of the second loop, on the line \<open>lines[i]\<close>\<close>
  "bodyLine line v =
     (let trimmed = trim line
      in if trimmed = [] then Inr v
         else if isHeading trimmed \<or> startsWith trimmed ''.'' then Inr (open_scene trimmed v)
         else
           (let v1 = ensure_scene v
            in case characterCue trimmed of
                 Some char \<Rightarrow>
                   push_content \<lparr>type = Character, content = char, character = Some char\<rparr>
                     (v1\<lparr>v_characters := set_add char (v_characters v1)\<rparr>)
               | None \<Rightarrow>
                   if isParenthetical trimmed then
                     push_content \<lparr>type = Parenthetical, content = trimmed, character = None\<rparr> v1
                   else if isTransition trimmed then
                     push_content \<lparr>type = Transition, content = trimmed, character = None\<rparr> v1
                   else continuation trimmed v1))"

function body :: "string list \<Rightarrow> nat \<Rightarrow> parser_vars \<Rightarrow> error + parser_vars" where
  \<comment> \<open>the second loop, from the index \<open>i\<close>\<close>
  "body lines i v =
     (if i < length lines then
        (case at_index lines i of
           None \<Rightarrow> Inl TypeError
         | Some line \<Rightarrow> (case bodyLine line v of Inl err \<Rightarrow> Inl err | Inr v' \<Rightarrow> body lines (i + 1) v'))
      else Inr v)"
  by pat_completeness auto
termination
  by (relation "measure (\<lambda>(lines, i, v). length lines - i)") auto

definition parseFountain :: "nat \<Rightarrow> string \<Rightarrow> error + ParsedScript" where
  \<comment> \<open>\<open>now\<close> is what \<open>Date.now()\<close> returns\<close>
  "parseFountain now txt =
     (let lines = split_nl txt
      in case titlePage lines 0 [] [] of
           Inl err \<Rightarrow> Inl err
         | Inr (i, ttl, auths) \<Rightarrow>
             (case body lines i initial_vars of
                Inl err \<Rightarrow> Inl err
              | Inr v \<Rightarrow>
                  Inr \<lparr>title = Some (or_else (Some ttl) ''Untitled Script''),
                       authors = Some auths,
                       rawText = txt,
                       scenes = v_scenes v,
                       characters = v_characters v,
                       locations = v_locations v,
                       metadata = \<lparr>format = Fountain, pageCount = None, importedAt = now\<rparr>\<rparr>))"

subsection \<open>The Final Draft parser\<close>

text \<open>
  \<open>DOMParser\<close> belongs to the browser, not to the repository. Its result is modelled as the
  tree of elements and text nodes under the document's root element, and the parser itself
  is a parameter of \<open>parseFDX\<close>. The queries are those the source makes: a tag name, or a tag
  name with the value of one attribute, in document order. \<open>parseFromString\<close> does not throw
  on input that is not well-formed: it returns a document that holds a \<open>parsererror\<close>
  element.
\<close>

datatype node = Element string "(string \<times> string) list" "node list" | TextNode string

fun elements_of :: "node \<Rightarrow> node list" where
  \<comment> \<open>an element and the elements below it, in document order\<close>
  "elements_of (Element t as cs) = Element t as cs # concat (map elements_of cs)"
| "elements_of (TextNode s) = []"

fun descendants :: "node \<Rightarrow> node list" where
  "descendants (Element t as cs) = concat (map elements_of cs)"
| "descendants (TextNode s) = []"

fun textContent :: "node \<Rightarrow> string" where
  "textContent (Element t as cs) = concat (map textContent cs)"
| "textContent (TextNode s) = s"

fun getAttribute :: "node \<Rightarrow> string \<Rightarrow> string option" where
  "getAttribute (Element t as cs) a = map_of as a"
| "getAttribute (TextNode s) a = None"

fun tagName :: "node \<Rightarrow> string" where
  "tagName (Element t as cs) = t"
| "tagName (TextNode s) = []"

definition tag_is :: "string \<Rightarrow> node \<Rightarrow> bool" where
  \<comment> \<open>the selector \<open>T\<close>\<close>
  "tag_is t n = (tagName n = t)"

definition tag_attr_is :: "string \<Rightarrow> string \<Rightarrow> string \<Rightarrow> node \<Rightarrow> bool" where
  \<comment> \<open>the selector \<open>T[a="v"]\<close>\<close>
  "tag_attr_is t a v n = (tagName n = t \<and> getAttribute n a = Some v)"

definition doc_querySelector :: "(node \<Rightarrow> bool) \<Rightarrow> node \<Rightarrow> node option" where
  \<comment> \<open>on the document: the root element is among the candidates\<close>
  "doc_querySelector sel root = find sel (elements_of root)"

definition doc_querySelectorAll :: "(node \<Rightarrow> bool) \<Rightarrow> node \<Rightarrow> node list" where
  "doc_querySelectorAll sel root = filter sel (elements_of root)"

definition querySelector :: "(node \<Rightarrow> bool) \<Rightarrow> node \<Rightarrow> node option" where
  \<comment> \<open>on an element: among its descendants only\<close>
  "querySelector sel e = find sel (descendants e)"

definition querySelectorAll :: "(node \<Rightarrow> bool) \<Rightarrow> node \<Rightarrow> node list" where
  "querySelectorAll sel e = filter sel (descendants e)"

definition fdxTitle :: "node \<Rightarrow> string" where
  "fdxTitle doc =
     (let titlePage = doc_querySelector (tag_is ''TitlePage'') doc;
          t1 = (case titlePage of
                  None \<Rightarrow> None
                | Some tp \<Rightarrow>
                    (case querySelector (tag_attr_is ''Content'' ''Type'' ''Title'') tp of
                       None \<Rightarrow> None
                     | Some el \<Rightarrow> Some (trim (textContent el))));
          t2 = (case doc_querySelector (tag_is ''FinalDraft'') doc of
                  None \<Rightarrow> None
                | Some fd \<Rightarrow> getAttribute fd ''Title'')
      in if truthy t1 then or_else t1 [] else or_else t2 ''Untitled Script'')"

definition fdxAuthors :: "node \<Rightarrow> string list" where
  "fdxAuthors doc =
     (case doc_querySelector (tag_is ''TitlePage'') doc of
        None \<Rightarrow> []
      | Some tp \<Rightarrow>
          filter (\<lambda>author. author \<noteq> [])
            (map (\<lambda>el. trim (textContent el))
              (querySelectorAll
                (\<lambda>n. tag_attr_is ''Content'' ''Type'' ''Author'' n \<or>
                      tag_attr_is ''Content'' ''Type'' ''Written by'' n) tp)))"

definition paragraphType :: "node \<Rightarrow> string" where
  \<comment> \<open>\<open>para.getAttribute('Type')?.toLowerCase() || ''\<close>\<close>
  "paragraphType para = or_else (map_option toLowerCase (getAttribute para ''Type'')) []"

definition paragraphText :: "node \<Rightarrow> string" where
  \<comment> \<open>\<open>para.querySelector('Text')?.textContent?.trim() || ''\<close>\<close>
  "paragraphText para =
     or_else (map_option (\<lambda>el. trim (textContent el)) (querySelector (tag_is ''Text'') para)) []"

definition fdxParagraph :: "node \<Rightarrow> parser_vars \<Rightarrow> error + parser_vars" where
  \<comment> \<open>the callback of \<open>paragraphs.forEach\<close>\<close>
  "fdxParagraph para v =
     (let ptype = paragraphType para;
          txt = paragraphText para
      in if txt = [] then Inr v
         else if ptype = ''scene heading'' \<or> ptype = ''slug line'' then Inr (open_scene txt v)
         else
           (let v1 = ensure_scene v
            in if ptype = ''character'' then
                 (let char = trim (replace_first extension_re txt)
                  in push_content \<lparr>type = Character, content = txt, character = Some char\<rparr>
                       (v1\<lparr>v_characters := set_add char (v_characters v1)\<rparr>))
               else if ptype = ''dialogue'' then
                 (case current_scene v1 of
                    Inl err \<Rightarrow> Inl err
                  | Inr (k, sc) \<Rightarrow>
                      push_content \<lparr>type = Dialogue, content = txt,
                                    character = lastCharacter (scene_content sc)\<rparr> v1)
               else if ptype = ''parenthetical'' then
                 push_content \<lparr>type = Parenthetical, content = txt, character = None\<rparr> v1
               else if ptype = ''transition'' then
                 push_content \<lparr>type = Transition, content = txt, character = None\<rparr> v1
               else push_content \<lparr>type = Action, content = txt, character = None\<rparr> v1))"

fun fdxParagraphs :: "node list \<Rightarrow> parser_vars \<Rightarrow> error + parser_vars" where
  \<comment> \<open>\<open>paragraphs.forEach\<close>\<close>
  "fdxParagraphs [] v = Inr v"
| "fdxParagraphs (para # ps) v =
     (case fdxParagraph para v of Inl err \<Rightarrow> Inl err | Inr v' \<Rightarrow> fdxParagraphs ps v')"

definition newline :: string where
  "newline = [CHR 0x0A]"

definition elementText :: "SceneElement \<Rightarrow> string" where
  "elementText element =
     (if type element = Character then newline @ content element @ newline
      else if type element = Dialogue then content element @ newline
      else if type element = Parenthetical then content element @ newline
      else content element @ newline @ newline)"

definition sceneText :: "ParsedScene \<Rightarrow> string" where
  "sceneText scene =
     heading scene @ newline @ newline @ concat (map elementText (scene_content scene)) @ newline"

definition parseFDX_document :: "nat \<Rightarrow> node \<Rightarrow> error + ParsedScript" where
  \<comment> \<open>the body of \<open>parseFDX\<close> after the call of the parser\<close>
  "parseFDX_document now doc =
     (case fdxParagraphs (doc_querySelectorAll (tag_is ''Paragraph'') doc) initial_vars of
        Inl err \<Rightarrow> Inl err
      | Inr v \<Rightarrow>
          Inr \<lparr>title = Some (fdxTitle doc),
               authors = Some (fdxAuthors doc),
               rawText = concat (map sceneText (v_scenes v)),
               scenes = v_scenes v,
               characters = v_characters v,
               locations = v_locations v,
               metadata = \<lparr>format = Fdx, pageCount = None, importedAt = now\<rparr>\<rparr>)"

definition parseFDX :: "(string \<Rightarrow> node) \<Rightarrow> nat \<Rightarrow> string \<Rightarrow> error + ParsedScript" where
  \<comment> \<open>\<open>parseFromString\<close> is \<open>new DOMParser().parseFromString(_, 'text/xml')\<close>\<close>
  "parseFDX parseFromString now xmlContent = parseFDX_document now (parseFromString xmlContent)"

subsection \<open>The export to the director format\<close>

record Beat =
  beat_id :: string
  beat_characters :: "string list"  \<comment> \<open>the field \<open>characters\<close> of a beat\<close>
  action :: string
  dialogue :: "string option"
  beat_location :: string  \<comment> \<open>the field \<open>location\<close> of a beat\<close>
  camera :: string
  lighting :: string

record CharacterEntry =
  c_name :: string
  c_handle :: string
  c_role :: string
  c_traits :: "string list"
  c_visuals :: string

record LocationEntry =
  l_name :: string
  l_handle :: string
  l_visuals :: string

record DirectorExport =
  script :: string
  export_characters :: "CharacterEntry list"
  export_locations :: "LocationEntry list"
  beats :: "Beat list"

fun show_nat :: "nat \<Rightarrow> string" where
  \<comment> \<open>a number in a template literal: its decimal digits\<close>
  "show_nat n =
     (if n < 10 then [''0123456789'' ! n] else show_nat (n div 10) @ [''0123456789'' ! (n mod 10)])"

definition handleOf :: "string \<Rightarrow> string" where
  \<comment> \<open>\<open>`@${c.replace(/\s/g, '')}`\<close>\<close>
  "handleOf c = CHR ''@'' # strip_white c"

fun handles :: "string option list \<Rightarrow> error + string list" where
  \<comment> \<open>\<open>xs.map(c => `@${c.replace(/\s/g, '')}`)\<close>: a TypeError at an \<open>undefined\<close> member\<close>
  "handles [] = Inr []"
| "handles (None # cs) = Inl TypeError"
| "handles (Some c # cs) = (case handles cs of Inl err \<Rightarrow> Inl err | Inr hs \<Rightarrow> Inr (handleOf c # hs))"

text \<open>
  \<open>currentBeat\<close> refers to an object that is also an element of \<open>beats\<close>; as for the scenes
  it is the index of that object. \<open>clock n\<close> is what \<open>Date.now()\<close> returns at its \<open>n\<close>-th
  call; the source calls it once for each beat, right after counting the beat.
\<close>

record export_vars =
  x_beats :: "Beat list"
  x_beatCounter :: nat
  x_currentBeat :: "nat option"
  x_sceneCharacters :: "string option list"

definition lightingOf :: "ParsedScene \<Rightarrow> string" where
  "lightingOf scene = (if interior scene then ''Interior'' else ''Natural'')"

definition newBeatId :: "(nat \<Rightarrow> nat) \<Rightarrow> nat \<Rightarrow> string" where
  \<comment> \<open>\<open>`beat_${Date.now()}_${beatCounter}`\<close>\<close>
  "newBeatId clock beatCounter = ''beat_'' @ show_nat (clock beatCounter) @ ''_'' @ show_nat beatCounter"

definition exportElement ::
  "(nat \<Rightarrow> nat) \<Rightarrow> ParsedScene \<Rightarrow> SceneElement \<Rightarrow> export_vars \<Rightarrow> error + export_vars" where
  \<comment> \<open>the callback of \<open>scene.content.forEach\<close>\<close>
  "exportElement clock scene element x =
     (let x1 = (if type element = Character
                then x\<lparr>x_sceneCharacters := x_sceneCharacters x @ [character element]\<rparr> else x)
      in case (if type element = Action then
                 (let beatCounter = x_beatCounter x1 + 1
                  in case handles (new_Set (x_sceneCharacters x1)) of
                       Inl err \<Rightarrow> Inl err
                     | Inr hs \<Rightarrow>
                         Inr (x1\<lparr>x_beatCounter := beatCounter,
                                 x_currentBeat := Some (length (x_beats x1)),
                                 x_beats := x_beats x1 @
                                   [\<lparr>beat_id = newBeatId clock beatCounter, beat_characters = hs,
                                     action = content element, dialogue = None,
                                     beat_location = location scene, camera = ''Standard'',
                                     lighting = lightingOf scene\<rparr>]\<rparr>))
               else Inr x1) of
           Inl err \<Rightarrow> Inl err
         | Inr x2 \<Rightarrow>
             (if type element = Dialogue \<and> x_currentBeat x2 \<noteq> None then
                (case x_currentBeat x2 of
                   None \<Rightarrow> Inr x2
                 | Some k \<Rightarrow>
                     (case at_index (x_beats x2) k of
                        None \<Rightarrow> Inl TypeError
                      | Some currentBeat \<Rightarrow>
                          (let b1 = currentBeat\<lparr>dialogue := Some (content element)\<rparr>;
                               b2 = (if truthy (character element) then
                                       (let h = handleOf (or_else (character element) [])
                                        in if \<not> array_includes (beat_characters b1) h
                                           then b1\<lparr>beat_characters := beat_characters b1 @ [h]\<rparr>
                                           else b1)
                                     else b1)
                           in Inr (x2\<lparr>x_beats := (x_beats x2)[k := b2]\<rparr>))))
              else Inr x2))"

fun exportElements ::
  "(nat \<Rightarrow> nat) \<Rightarrow> ParsedScene \<Rightarrow> SceneElement list \<Rightarrow> export_vars \<Rightarrow> error + export_vars" where
  "exportElements clock scene [] x = Inr x"
| "exportElements clock scene (element # es) x =
     (case exportElement clock scene element x of
        Inl err \<Rightarrow> Inl err
      | Inr x' \<Rightarrow> exportElements clock scene es x')"

definition exportScene ::
  "(nat \<Rightarrow> nat) \<Rightarrow> ParsedScene \<Rightarrow> Beat list \<times> nat \<Rightarrow> error + Beat list \<times> nat" where
  \<comment> \<open>the callback of \<open>parsed.scenes.forEach\<close>, on \<open>beats\<close> and \<open>beatCounter\<close>\<close>
  "exportScene clock scene bc =
     (case exportElements clock scene (scene_content scene)
             \<lparr>x_beats = fst bc, x_beatCounter = snd bc, x_currentBeat = None,
              x_sceneCharacters = []\<rparr> of
        Inl err \<Rightarrow> Inl err
      | Inr x \<Rightarrow>
          if length (filter (\<lambda>b. beat_location b = location scene) (x_beats x)) = 0 then
            (let beatCounter = x_beatCounter x + 1
             in case handles (new_Set (x_sceneCharacters x)) of
                  Inl err \<Rightarrow> Inl err
                | Inr hs \<Rightarrow>
                    Inr (x_beats x @
                           [\<lparr>beat_id = newBeatId clock beatCounter, beat_characters = hs,
                             action = heading scene, dialogue = None,
                             beat_location = location scene, camera = ''Establishing'',
                             lighting = lightingOf scene\<rparr>],
                         beatCounter))
          else Inr (x_beats x, x_beatCounter x))"

fun exportScenes ::
  "(nat \<Rightarrow> nat) \<Rightarrow> ParsedScene list \<Rightarrow> Beat list \<times> nat \<Rightarrow> error + Beat list \<times> nat" where
  "exportScenes clock [] bc = Inr bc"
| "exportScenes clock (scene # ss) bc =
     (case exportScene clock scene bc of
        Inl err \<Rightarrow> Inl err
      | Inr bc' \<Rightarrow> exportScenes clock ss bc')"

definition exportToDirector :: "(nat \<Rightarrow> nat) \<Rightarrow> ParsedScript \<Rightarrow> error + DirectorExport" where
  "exportToDirector clock parsed =
     (case exportScenes clock (scenes parsed) ([], 0) of
        Inl err \<Rightarrow> Inl err
      | Inr (bs, beatCounter) \<Rightarrow>
          Inr \<lparr>script = rawText parsed,
               export_characters =
                 map (\<lambda>name. \<lparr>c_name = name, c_handle = handleOf name, c_role = ''Character'',
                              c_traits = [], c_visuals = ''Character: '' @ name\<rparr>)
                     (characters parsed),
               export_locations =
                 map (\<lambda>name. \<lparr>l_name = name, l_handle = handleOf name,
                              l_visuals = ''Location: '' @ name\<rparr>)
                     (locations parsed),
               beats = bs\<rparr>)"

subsection \<open>Predicates of the properties\<close>

definition refs_ok :: "parser_vars \<Rightarrow> bool" where
  \<comment> \<open>\<open>currentScene\<close> is \<open>null\<close> while \<open>scenes\<close> is empty and the last scene afterwards\<close>
  "refs_ok v =
     (v_currentScene v =
        (if v_scenes v = [] then None else Some (length (v_scenes v) - 1)))"

definition cue_names :: "ParsedScene \<Rightarrow> string list" where
  \<comment> \<open>the names of the character elements of a scene, in order\<close>
  "cue_names sc =
     concat (map (\<lambda>e. if type e = Character then (case character e of Some c \<Rightarrow> [c] | None \<Rightarrow> []) else [])
                 (scene_content sc))"

definition synthesized :: "ParsedScene \<Rightarrow> bool" where
  \<comment> \<open>the scene a parser makes up for content before any heading; no heading yields this
      pair of fields\<close>
  "synthesized sc = (heading sc = ''OPENING'' \<and> location sc = ''UNKNOWN'')"

definition heading_locations :: "ParsedScene list \<Rightarrow> string list" where
  "heading_locations scs = map (\<lambda>sc. toUpperCase (location sc)) (filter (\<lambda>sc. \<not> synthesized sc) scs)"

definition attributed :: "SceneElement list \<Rightarrow> bool" where
  \<comment> \<open>every dialogue element carries the name of the last character element before it\<close>
  "attributed es =
     (\<forall>j<length es. type (es ! j) = Dialogue \<longrightarrow> character (es ! j) = lastCharacter (take j es))"

definition parser_inv :: "parser_vars \<Rightarrow> bool" where
  "parser_inv v =
     (refs_ok v \<and>
      v_characters v = new_Set (concat (map cue_names (v_scenes v))) \<and>
      v_locations v = new_Set (heading_locations (v_scenes v)) \<and>
      (\<forall>sc\<in>set (v_scenes v). attributed (scene_content sc)))"

definition beat_fields ::
  "Beat \<Rightarrow> string list \<times> string \<times> string option \<times> string \<times> string \<times> string" where
  \<comment> \<open>a beat without its id: characters, action, dialogue, location, camera, lighting\<close>
  "beat_fields b =
     (beat_characters b, action b, dialogue b, beat_location b, camera b, lighting b)"

definition same_but_ids :: "export_vars \<Rightarrow> export_vars \<Rightarrow> bool" where
  "same_but_ids x y =
     (map beat_fields (x_beats x) = map beat_fields (x_beats y) \<and>
      x_beatCounter x = x_beatCounter y \<and>
      x_currentBeat x = x_currentBeat y \<and>
      x_sceneCharacters x = x_sceneCharacters y)"

definition same_beats :: "Beat list \<times> nat \<Rightarrow> Beat list \<times> nat \<Rightarrow> bool" where
  "same_beats p q = (map beat_fields (fst p) = map beat_fields (fst q) \<and> snd p = snd q)"

definition cue_characters :: "SceneElement list \<Rightarrow> string option list" where
  \<comment> \<open>what \<open>sceneCharacters\<close> holds after the elements: the \<open>character\<close> fields of the
      character elements\<close>
  "cue_characters es = map character (filter (\<lambda>e. type e = Character) es)"

definition establishing :: "(nat \<Rightarrow> nat) \<Rightarrow> ParsedScene \<Rightarrow> nat \<Rightarrow> string list \<Rightarrow> Beat" where
  \<comment> \<open>the beat the extractor makes up for a scene\<close>
  "establishing clock scene beatCounter hs =
     \<lparr>beat_id = newBeatId clock beatCounter, beat_characters = hs, action = heading scene,
      dialogue = None, beat_location = location scene, camera = ''Establishing'',
      lighting = lightingOf scene\<rparr>"



subsection \<open>The inputs of the scenarios\<close>

definition scenario :: string where
  \<comment> \<open>the nine lines of the concrete scenario, joined by newlines\<close>
  "scenario =
     ''Title: Test'' @ newline @ newline @ ''INT. DINER - DAY'' @ newline @ newline @
     ''JOE'' @ newline @ ''(tired)'' @ newline @ ''I need coffee.'' @ newline @ newline @
     ''She pours it.''"

definition scenario_elements :: "SceneElement list" where
  "scenario_elements =
     [\<lparr>type = Character, content = ''JOE'', character = Some ''JOE''\<rparr>,
      \<lparr>type = Parenthetical, content = ''(tired)'', character = None\<rparr>,
      \<lparr>type = Dialogue, content = ''I need coffee. She pours it.'', character = Some ''JOE''\<rparr>]"

definition scenario_scene :: ParsedScene where
  "scenario_scene =
     \<lparr>sceneNumber = 1, heading = ''INT. DINER - DAY'', location = ''DINER'', timeOfDay = ''DAY'',
      interior = True, scene_content = scenario_elements\<rparr>"

definition scenario_document :: "nat \<Rightarrow> ParsedScript" where
  "scenario_document now =
     \<lparr>title = Some ''Test'', authors = Some [], rawText = scenario, scenes = [scenario_scene],
      characters = [''JOE''], locations = [''DINER''],
      metadata = \<lparr>format = Fountain, pageCount = None, importedAt = now\<rparr>\<rparr>"


definition parsererror_document :: "string \<Rightarrow> node" where
  \<comment> \<open>what a browser's parser returns for a source that is not well-formed: a document
      whose root is a \<open>parsererror\<close> element with the message and the source\<close>
  "parsererror_document src =
     Element ''parsererror'' [(''xmlns'', ''http://www.mozilla.org/newlayout/xml/parsererror.xml'')]
       [TextNode ''XML Parsing Error: syntax error'', Element ''sourcetext'' [] [TextNode src]]"



definition two_scenes_one_location :: ParsedScript where
  \<comment> \<open>two scenes in the diner: the first has an action, the second only a cue and a line\<close>
  "two_scenes_one_location =
     \<lparr>title = Some ''Test'', authors = Some [], rawText = [],
      scenes =
        [\<lparr>sceneNumber = 1, heading = ''INT. DINER - DAY'', location = ''DINER'',
          timeOfDay = ''DAY'', interior = True,
          scene_content = [\<lparr>type = Action, content = ''She pours it.'', character = None\<rparr>]\<rparr>,
         \<lparr>sceneNumber = 2, heading = ''INT. DINER - NIGHT'', location = ''DINER'',
          timeOfDay = ''NIGHT'', interior = True,
          scene_content =
            [\<lparr>type = Character, content = ''JOE'', character = Some ''JOE''\<rparr>,
             \<lparr>type = Dialogue, content = ''Hi.'', character = Some ''JOE''\<rparr>]\<rparr>],
      characters = [''JOE''], locations = [''DINER''],
      metadata = \<lparr>format = Fountain, pageCount = None, importedAt = 0\<rparr>\<rparr>"

declare titlePage.simps [simp del]
declare body.simps [simp del]
declare show_nat.simps [simp del]
declare rmatch.simps(7,8) [simp del]

section \<open>Properties\<close>

subsection \<open>The concrete scenario\<close>

lemma scenario_lines:
  "split_nl scenario =
     [''Title: Test'', [], ''INT. DINER - DAY'', [], ''JOE'', ''(tired)'', ''I need coffee.'', [],
      ''She pours it.'']"
  by code_simp

lemma parseFountain_scenario: "parseFountain now scenario = Inr (scenario_document now)"
  by code_simp

text \<open>
  C1, as stated, fails: the blank line after the dialogue does not end it, so the last line
  of the scenario is joined to the dialogue and the scene has three elements, none of them
  an action.
\<close>

theorem C1_scenario_four_elements_counterexample:
  "map_sum id (map scene_content \<circ> scenes) (parseFountain 0 scenario) \<noteq>
     Inr [[\<lparr>type = Character, content = ''JOE'', character = Some ''JOE''\<rparr>,
           \<lparr>type = Parenthetical, content = ''(tired)'', character = None\<rparr>,
           \<lparr>type = Dialogue, content = ''I need coffee.'', character = Some ''JOE''\<rparr>,
           \<lparr>type = Action, content = ''She pours it.'', character = None\<rparr>]]"
  by (simp add: parseFountain_scenario scenario_document_def scenario_scene_def
      scenario_elements_def)

text \<open>
  C1, amended: on the scenario the parser returns the title \<open>Test\<close>, one scene with location
  \<open>DINER\<close>, time of day \<open>DAY\<close> and interior true, the characters \<open>JOE\<close> and the locations
  \<open>DINER\<close>; the content of the scene is the three elements character \<open>JOE\<close>, parenthetical
  \<open>(tired)\<close> and the dialogue \<open>I need coffee. She pours it.\<close> attributed to \<open>JOE\<close>.
\<close>

theorem C1_scenario:
  "\<exists>d. parseFountain now scenario = Inr d \<and>
       title d = Some ''Test'' \<and>
       map location (scenes d) = [''DINER''] \<and>
       map timeOfDay (scenes d) = [''DAY''] \<and>
       map interior (scenes d) = [True] \<and>
       map scene_content (scenes d) =
         [[\<lparr>type = Character, content = ''JOE'', character = Some ''JOE''\<rparr>,
           \<lparr>type = Parenthetical, content = ''(tired)'', character = None\<rparr>,
           \<lparr>type = Dialogue, content = ''I need coffee. She pours it.'',
            character = Some ''JOE''\<rparr>]] \<and>
       characters d = [''JOE''] \<and>
       locations d = [''DINER'']"
  by (simp add: parseFountain_scenario scenario_document_def scenario_scene_def
      scenario_elements_def)

subsection \<open>A document without a heading\<close>

text \<open>
  C2: a document whose only line is plain action text. The first loop passes over every
  line that is not a heading, up to fifty of them, so the second loop starts after the
  line and the parser returns no scene at all.
\<close>

theorem C2_action_only_document_has_no_scene:
  "parseFountain now ''She pours it.'' =
     Inr \<lparr>title = Some ''Untitled Script'', authors = Some [], rawText = ''She pours it.'',
          scenes = [], characters = [], locations = [],
          metadata = \<lparr>format = Fountain, pageCount = None, importedAt = now\<rparr>\<rparr>"
  by code_simp

subsection \<open>What both parsers keep true\<close>

lemma refs_ok_initial: "refs_ok initial_vars"
  by (simp add: refs_ok_def initial_vars_def)

lemma refs_ok_open_scene: "refs_ok (open_scene h v)"
  by (simp add: refs_ok_def open_scene_def Let_def)

lemma refs_ok_ensure_scene: "refs_ok v \<Longrightarrow> refs_ok (ensure_scene v)"
  by (simp add: refs_ok_def ensure_scene_def Let_def)

lemma ensure_scene_nonempty: "refs_ok v \<Longrightarrow> v_scenes (ensure_scene v) \<noteq> []"
  by (auto simp add: refs_ok_def ensure_scene_def Let_def split: if_splits)

lemma update_last: "xs \<noteq> [] \<Longrightarrow> xs[length xs - Suc 0 := y] = butlast xs @ [y]"
  by (induction xs rule: rev_induct) (simp_all add: list_update_append)

lemma current_scene_last:
  "refs_ok v \<Longrightarrow> v_scenes v \<noteq> [] \<Longrightarrow>
   current_scene v = Inr (length (v_scenes v) - 1, last (v_scenes v))"
  by (simp add: refs_ok_def current_scene_def at_index_def last_conv_nth)

lemma set_content_last:
  "refs_ok v \<Longrightarrow> v_scenes v \<noteq> [] \<Longrightarrow>
   set_content es v =
     Inr (v\<lparr>v_scenes := butlast (v_scenes v) @ [(last (v_scenes v))\<lparr>scene_content := es\<rparr>]\<rparr>)"
  by (simp add: set_content_def current_scene_last update_last)

lemma push_content_last:
  "refs_ok v \<Longrightarrow> v_scenes v \<noteq> [] \<Longrightarrow>
   push_content e v =
     Inr (v\<lparr>v_scenes := butlast (v_scenes v) @
            [(last (v_scenes v))\<lparr>scene_content := scene_content (last (v_scenes v)) @ [e]\<rparr>]\<rparr>)"
  by (simp add: push_content_def current_scene_last set_content_last)

lemma new_Set_snoc: "new_Set (xs @ [x]) = set_add x (new_Set xs)"
  by (simp add: new_Set_def)

lemma new_Set_Nil: "new_Set [] = []"
  by (simp add: new_Set_def)





lemma findLast_snoc: "findLast P (xs @ [a]) = (if P a then Some a else findLast P xs)"
  by (simp add: findLast_def)

lemma findLast_Some:
  "findLast P xs = Some x \<Longrightarrow>
   \<exists>i<length xs. xs ! i = x \<and> P x \<and> (\<forall>k. i < k \<and> k < length xs \<longrightarrow> \<not> P (xs ! k))"
proof (induction xs rule: rev_induct)
  case Nil
  then show ?case by (simp add: findLast_def)
next
  case (snoc a xs)
  show ?case
  proof (cases "P a")
    case True
    with snoc.prems have "x = a" by (simp add: findLast_snoc)
    with True show ?thesis
      by (intro exI[of _ "length xs"]) auto
  next
    case False
    with snoc.prems have "findLast P xs = Some x" by (simp add: findLast_snoc)
    from snoc.IH[OF this] obtain i where i: "i < length xs" "xs ! i = x" "P x"
      "\<forall>k. i < k \<and> k < length xs \<longrightarrow> \<not> P (xs ! k)" by blast
    have "\<forall>k. i < k \<and> k < length (xs @ [a]) \<longrightarrow> \<not> P ((xs @ [a]) ! k)"
    proof (intro allI impI)
      fix k assume k: "i < k \<and> k < length (xs @ [a])"
      show "\<not> P ((xs @ [a]) ! k)"
      proof (cases "k < length xs")
        case True
        with i(4) k show ?thesis by (simp add: nth_append)
      next
        case False
        with k have "k = length xs" by simp
        with \<open>\<not> P a\<close> show ?thesis by simp
      qed
    qed
    with i show ?thesis
      by (intro exI[of _ i]) (simp add: nth_append)
  qed
qed

lemma attributed_Nil: "attributed []"
  by (simp add: attributed_def)

lemma attributed_snoc:
  "attributed es \<Longrightarrow> (type e = Dialogue \<Longrightarrow> character e = lastCharacter es) \<Longrightarrow>
   attributed (es @ [e])"
  unfolding attributed_def
proof (intro allI impI)
  fix j
  assume a: "\<forall>j<length es. type (es ! j) = Dialogue \<longrightarrow> character (es ! j) = lastCharacter (take j es)"
    and e: "type e = Dialogue \<Longrightarrow> character e = lastCharacter es"
    and j: "j < length (es @ [e])" and d: "type ((es @ [e]) ! j) = Dialogue"
  show "character ((es @ [e]) ! j) = lastCharacter (take j (es @ [e]))"
  proof (cases "j < length es")
    case True
    with a d show ?thesis by (simp add: nth_append)
  next
    case False
    with j have "j = length es" by simp
    with e d show ?thesis by simp
  qed
qed

lemma attributed_same_last:
  "attributed (es @ [e]) \<Longrightarrow> type e' = type e \<Longrightarrow> character e' = character e \<Longrightarrow>
   attributed (es @ [e'])"
  unfolding attributed_def
proof (intro allI impI)
  fix j
  assume a: "\<forall>j<length (es @ [e]). type ((es @ [e]) ! j) = Dialogue \<longrightarrow>
                character ((es @ [e]) ! j) = lastCharacter (take j (es @ [e]))"
    and t: "type e' = type e" and c: "character e' = character e"
    and j: "j < length (es @ [e'])" and d: "type ((es @ [e']) ! j) = Dialogue"
  show "character ((es @ [e']) ! j) = lastCharacter (take j (es @ [e']))"
  proof (cases "j < length es")
    case True
    with a[rule_format, of j] d show ?thesis by (simp add: nth_append)
  next
    case False
    with j have "j = length es" by simp
    with a[rule_format, of j] t c d show ?thesis by simp
  qed
qed

lemma attributed_pick:
  assumes "attributed es" and "j < length es" and "type (es ! j) = Dialogue"
    and "character (es ! j) = Some c"
  shows "\<exists>i<j. type (es ! i) = Character \<and> character (es ! i) = Some c \<and>
           (\<forall>k. i < k \<and> k < j \<longrightarrow> type (es ! k) \<noteq> Character)"
proof -
  from assms have "lastCharacter (take j es) = Some c"
    by (simp add: attributed_def)
  then obtain x where x: "findLast (\<lambda>e. type e = Character) (take j es) = Some x" "character x = Some c"
    by (auto simp add: lastCharacter_def split: option.splits)
  from findLast_Some[OF x(1)] obtain i where i: "i < length (take j es)" "take j es ! i = x"
    "type x = Character"
    "\<forall>k. i < k \<and> k < length (take j es) \<longrightarrow> type (take j es ! k) \<noteq> Character" by blast
  from i(1) assms(2) have ij: "i < j" by simp
  with i(2) have "es ! i = x" by simp
  moreover have "\<forall>k. i < k \<and> k < j \<longrightarrow> type (es ! k) \<noteq> Character"
  proof (intro allI impI)
    fix k assume "i < k \<and> k < j"
    with i(4)[rule_format, of k] assms(2) show "type (es ! k) \<noteq> Character" by simp
  qed
  ultimately show ?thesis using ij i(3) x(2) by blast
qed


lemma cue_names_snoc:
  "cue_names (sc\<lparr>scene_content := scene_content sc @ [e]\<rparr>) =
     cue_names sc @ (if type e = Character then (case character e of Some c \<Rightarrow> [c] | None \<Rightarrow> []) else [])"
  by (simp add: cue_names_def)

lemma heading_locations_content:
  "scs \<noteq> [] \<Longrightarrow>
   heading_locations (butlast scs @ [(last scs)\<lparr>scene_content := es\<rparr>]) = heading_locations scs"
  by (cases scs rule: rev_cases) (simp_all add: heading_locations_def synthesized_def)

lemma concat_cue_names_split:
  "scs \<noteq> [] \<Longrightarrow>
   concat (map cue_names scs) = concat (map cue_names (butlast scs)) @ cue_names (last scs)"
  by (cases scs rule: rev_cases) simp_all

lemma parser_inv_initial: "parser_inv initial_vars"
  by (simp add: parser_inv_def refs_ok_initial)
     (simp add: initial_vars_def new_Set_Nil heading_locations_def)

lemma headingLocation_OPENING: "headingLocation ''OPENING'' = ''OPENING''"
  by code_simp

lemma open_scene_not_synthesized:
  "\<not> synthesized \<lparr>sceneNumber = n, heading = h, location = headingLocation h,
                  timeOfDay = t, interior = b, scene_content = es\<rparr>"
  using headingLocation_OPENING by (auto simp add: synthesized_def)

lemma parser_inv_open_scene: "parser_inv v \<Longrightarrow> parser_inv (open_scene h v)"
  unfolding parser_inv_def
  apply (simp add: refs_ok_open_scene)
  apply (simp add: open_scene_def Let_def cue_names_def heading_locations_def
      open_scene_not_synthesized new_Set_snoc attributed_Nil)
  done

lemma parser_inv_ensure_scene: "parser_inv v \<Longrightarrow> parser_inv (ensure_scene v)"
  unfolding parser_inv_def
  apply (simp add: refs_ok_ensure_scene)
  apply (simp add: ensure_scene_def Let_def cue_names_def heading_locations_def
      synthesized_def attributed_Nil)
  done

lemma parser_inv_push:
  assumes "parser_inv v" and "v_scenes v \<noteq> []" and "type e \<noteq> Character"
    and "type e = Dialogue \<Longrightarrow> character e = lastCharacter (scene_content (last (v_scenes v)))"
  shows "\<exists>v'. push_content e v = Inr v' \<and> parser_inv v' \<and> v_scenes v' \<noteq> []"
proof -
  let ?sc = "last (v_scenes v)"
  let ?v' = "v\<lparr>v_scenes := butlast (v_scenes v) @ [?sc\<lparr>scene_content := scene_content ?sc @ [e]\<rparr>]\<rparr>"
  from assms(1) have r: "refs_ok v" by (simp add: parser_inv_def)
  have p: "push_content e v = Inr ?v'" by (rule push_content_last[OF r assms(2)])
  have "refs_ok ?v'" using r assms(2) by (simp add: refs_ok_def)
  moreover have "v_characters ?v' = new_Set (concat (map cue_names (v_scenes ?v')))"
    using assms(1,2,3) concat_cue_names_split[OF assms(2)]
    by (simp add: parser_inv_def cue_names_snoc)
  moreover have "v_locations ?v' = new_Set (heading_locations (v_scenes ?v'))"
    using assms(1,2) by (simp add: parser_inv_def heading_locations_content)
  moreover have "\<forall>sc\<in>set (v_scenes ?v'). attributed (scene_content sc)"
  proof -
    from assms(1) have a: "\<forall>sc\<in>set (v_scenes v). attributed (scene_content sc)"
      by (simp add: parser_inv_def)
    from assms(2) have "?sc \<in> set (v_scenes v)" by simp
    with a have "attributed (scene_content ?sc)" by blast
    then have "attributed (scene_content ?sc @ [e])"
      using assms(4) by (rule attributed_snoc)
    moreover from a have "\<forall>sc\<in>set (butlast (v_scenes v)). attributed (scene_content sc)"
      by (meson in_set_butlastD)
    ultimately show ?thesis by simp
  qed
  ultimately have "parser_inv ?v'" by (simp add: parser_inv_def)
  with p show ?thesis by simp
qed

lemma parser_inv_push_character:
  assumes "parser_inv v" and "v_scenes v \<noteq> []" and "type e = Character" and "character e = Some c"
  shows "\<exists>v'. push_content e (v\<lparr>v_characters := set_add c (v_characters v)\<rparr>) = Inr v' \<and>
              parser_inv v' \<and> v_scenes v' \<noteq> []"
proof -
  let ?sc = "last (v_scenes v)"
  let ?u = "v\<lparr>v_characters := set_add c (v_characters v)\<rparr>"
  let ?v' = "?u\<lparr>v_scenes := butlast (v_scenes v) @ [?sc\<lparr>scene_content := scene_content ?sc @ [e]\<rparr>]\<rparr>"
  from assms(1) have r: "refs_ok ?u" by (simp add: parser_inv_def refs_ok_def)
  have p: "push_content e ?u = Inr ?v'" using push_content_last[OF r] assms(2) by simp
  have "refs_ok ?v'" using r assms(2) by (simp add: refs_ok_def)
  moreover have "v_characters ?v' = new_Set (concat (map cue_names (v_scenes ?v')))"
  proof -
    have "concat (map cue_names (v_scenes ?v')) = concat (map cue_names (v_scenes v)) @ [c]"
      using assms(2,3,4) concat_cue_names_split[OF assms(2)] by (simp add: cue_names_snoc)
    then show ?thesis using assms(1) by (simp add: parser_inv_def new_Set_snoc)
  qed
  moreover have "v_locations ?v' = new_Set (heading_locations (v_scenes ?v'))"
    using assms(1,2) by (simp add: parser_inv_def heading_locations_content)
  moreover have "\<forall>sc\<in>set (v_scenes ?v'). attributed (scene_content sc)"
  proof -
    from assms(1) have a: "\<forall>sc\<in>set (v_scenes v). attributed (scene_content sc)"
      by (simp add: parser_inv_def)
    from assms(2) have "?sc \<in> set (v_scenes v)" by simp
    with a have "attributed (scene_content ?sc)" by blast
    then have "attributed (scene_content ?sc @ [e])"
    proof (rule attributed_snoc)
      assume "type e = Dialogue"
      with assms(3) show "character e = lastCharacter (scene_content ?sc)" by simp
    qed
    moreover from a have "\<forall>sc\<in>set (butlast (v_scenes v)). attributed (scene_content sc)"
      by (meson in_set_butlastD)
    ultimately show ?thesis by simp
  qed
  ultimately have "parser_inv ?v'" by (simp add: parser_inv_def)
  with p show ?thesis by simp
qed

lemma parser_inv_merge:
  assumes "parser_inv v" and "v_scenes v \<noteq> []" and "scene_content (last (v_scenes v)) \<noteq> []"
    and "type (last (scene_content (last (v_scenes v)))) = Dialogue"
  shows "\<exists>v'. set_content (butlast (scene_content (last (v_scenes v))) @
                  [(last (scene_content (last (v_scenes v))))\<lparr>content := x\<rparr>]) v = Inr v' \<and>
              parser_inv v' \<and> v_scenes v' \<noteq> []"
proof -
  let ?sc = "last (v_scenes v)"
  let ?es = "scene_content ?sc"
  let ?es' = "butlast ?es @ [(last ?es)\<lparr>content := x\<rparr>]"
  let ?v' = "v\<lparr>v_scenes := butlast (v_scenes v) @ [?sc\<lparr>scene_content := ?es'\<rparr>]\<rparr>"
  from assms(1) have r: "refs_ok v" by (simp add: parser_inv_def)
  have p: "set_content ?es' v = Inr ?v'" by (rule set_content_last[OF r assms(2)])
  have es: "?es = butlast ?es @ [last ?es]" using assms(3) by simp
  have cn: "cue_names (?sc\<lparr>scene_content := ?es'\<rparr>) = cue_names ?sc"
  proof -
    have "cue_names ?sc = concat (map (\<lambda>e. if type e = Character then (case character e of Some c \<Rightarrow> [c] | None \<Rightarrow> []) else []) (butlast ?es @ [last ?es]))"
      using es by (simp add: cue_names_def)
    then show ?thesis using assms(4) by (simp add: cue_names_def)
  qed
  have "refs_ok ?v'" using r assms(2) by (simp add: refs_ok_def)
  moreover have "v_characters ?v' = new_Set (concat (map cue_names (v_scenes ?v')))"
    using assms(1,2) concat_cue_names_split[OF assms(2)] cn
    by (simp add: parser_inv_def)
  moreover have "v_locations ?v' = new_Set (heading_locations (v_scenes ?v'))"
    using assms(1,2) by (simp add: parser_inv_def heading_locations_content)
  moreover have "\<forall>sc\<in>set (v_scenes ?v'). attributed (scene_content sc)"
  proof -
    from assms(1) have a: "\<forall>sc\<in>set (v_scenes v). attributed (scene_content sc)"
      by (simp add: parser_inv_def)
    from assms(2) have "?sc \<in> set (v_scenes v)" by simp
    with a have "attributed ?es" by blast
    with es have "attributed (butlast ?es @ [last ?es])" by simp
    then have "attributed ?es'" by (rule attributed_same_last) simp_all
    moreover from a have "\<forall>sc\<in>set (butlast (v_scenes v)). attributed (scene_content sc)"
      by (meson in_set_butlastD)
    ultimately show ?thesis by simp
  qed
  ultimately have "parser_inv ?v'" by (simp add: parser_inv_def)
  with p show ?thesis by simp
qed


lemma parser_inv_ensure_scene_nonempty:
  "parser_inv v \<Longrightarrow> v_scenes (ensure_scene v) \<noteq> []"
  by (simp add: parser_inv_def ensure_scene_nonempty)

lemma continuation_inv:
  assumes "parser_inv v" and "v_scenes v \<noteq> []"
  shows "\<exists>v'. continuation trimmed v = Inr v' \<and> parser_inv v' \<and> v_scenes v' \<noteq> []"
proof -
  let ?sc = "last (v_scenes v)"
  let ?es = "scene_content ?sc"
  from assms(1) have r: "refs_ok v" by (simp add: parser_inv_def)
  have cs: "current_scene v = Inr (length (v_scenes v) - 1, ?sc)"
    by (rule current_scene_last[OF r assms(2)])
  show ?thesis
  proof (cases "?es = []")
    case True
    have "continuation trimmed v = push_content \<lparr>type = Action, content = trimmed, character = None\<rparr> v"
      using True by (simp add: continuation_def cs last_index_def)
    then show ?thesis using parser_inv_push[OF assms, of "\<lparr>type = Action, content = trimmed, character = None\<rparr>"]
      by simp
  next
    case False
    let ?le = "last ?es"
    consider (merge) "type ?le = Dialogue"
      | (start) "type ?le = Character \<or> type ?le = Parenthetical"
      | (act) "type ?le = Action \<or> type ?le = Transition"
      by (cases "type ?le") auto
    then show ?thesis
    proof cases
      case merge
      have "continuation trimmed v =
              set_content (butlast ?es @ [?le\<lparr>content := content ?le @ '' '' @ trimmed\<rparr>]) v"
        using False merge by (simp add: continuation_def cs last_index_def)
      then show ?thesis using parser_inv_merge[OF assms False merge] by simp
    next
      case start
      let ?e = "\<lparr>type = Dialogue, content = trimmed, character = lastCharacter ?es\<rparr>"
      have "continuation trimmed v = push_content ?e v"
        using False start by (auto simp add: continuation_def cs last_index_def Let_def)
      then show ?thesis using parser_inv_push[OF assms, of ?e] by simp
    next
      case act
      let ?e = "\<lparr>type = Action, content = trimmed, character = None\<rparr>"
      have "continuation trimmed v = push_content ?e v"
        using False act by (auto simp add: continuation_def cs last_index_def)
      then show ?thesis using parser_inv_push[OF assms, of ?e] by simp
    qed
  qed
qed

lemma bodyLine_inv:
  assumes "parser_inv v"
  shows "\<exists>v'. bodyLine line v = Inr v' \<and> parser_inv v'"
proof -
  let ?t = "trim line"
  let ?v1 = "ensure_scene v"
  have i1: "parser_inv ?v1" by (rule parser_inv_ensure_scene[OF assms])
  have n1: "v_scenes ?v1 \<noteq> []" by (rule parser_inv_ensure_scene_nonempty[OF assms])
  show ?thesis
  proof (cases "?t = []")
    case True
    then show ?thesis using assms by (simp add: bodyLine_def)
  next
    case ne: False
    show ?thesis
    proof (cases "isHeading ?t \<or> startsWith ?t ''.''")
      case True
      then show ?thesis using ne parser_inv_open_scene[OF assms, of ?t]
        by (simp add: bodyLine_def)
    next
      case nh: False
      show ?thesis
      proof (cases "characterCue ?t")
        case (Some char)
        let ?e = "\<lparr>type = Character, content = char, character = Some char\<rparr>"
        have "bodyLine line v = push_content ?e (?v1\<lparr>v_characters := set_add char (v_characters ?v1)\<rparr>)"
          using ne nh Some by (simp add: bodyLine_def Let_def)
        then show ?thesis using parser_inv_push_character[OF i1 n1, of ?e char] by auto
      next
        case None
        show ?thesis
        proof (cases "isParenthetical ?t")
          case True
          let ?e = "\<lparr>type = Parenthetical, content = ?t, character = None\<rparr>"
          have "bodyLine line v = push_content ?e ?v1"
            using ne nh None True by (simp add: bodyLine_def Let_def)
          then show ?thesis using parser_inv_push[OF i1 n1, of ?e] by auto
        next
          case np: False
          show ?thesis
          proof (cases "isTransition ?t")
            case True
            let ?e = "\<lparr>type = Transition, content = ?t, character = None\<rparr>"
            have "bodyLine line v = push_content ?e ?v1"
              using ne nh None np True by (simp add: bodyLine_def Let_def)
            then show ?thesis using parser_inv_push[OF i1 n1, of ?e] by auto
          next
            case False
            have "bodyLine line v = continuation ?t ?v1"
              using ne nh None np False by (simp add: bodyLine_def Let_def)
            then show ?thesis using continuation_inv[OF i1 n1, of ?t] by auto
          qed
        qed
      qed
    qed
  qed
qed

lemma body_inv:
  "parser_inv v \<Longrightarrow> \<exists>v'. body lines i v = Inr v' \<and> parser_inv v'"
proof (induction lines i v rule: body.induct)
  case (1 lines i v)
  show ?case
  proof (cases "i < length lines")
    case True
    from bodyLine_inv[OF "1.prems", of "lines ! i"] obtain v1
      where v1: "bodyLine (lines ! i) v = Inr v1" "parser_inv v1" by blast
    have "at_index lines i = Some (lines ! i)" using True by (simp add: at_index_def)
    from "1.IH"[OF True this v1(1) v1(2)] obtain v' where "body lines (i + 1) v1 = Inr v'" "parser_inv v'"
      by blast
    then show ?thesis using True v1(1) by (subst body.simps) (simp add: at_index_def)
  next
    case False
    then show ?thesis using "1.prems" by (subst body.simps) simp
  qed
qed

lemma titlePage_returns: "\<exists>r. titlePage lines i ttl auths = Inr r"
proof (induction lines i ttl auths rule: titlePage.induct)
  case (1 lines i ttl auths)
  show ?case
  proof (cases "i < length lines \<and> i < 50")
    case True
    then have a: "at_index lines i = Some (lines ! i)" by (simp add: at_index_def)
    show ?thesis
      using True a "1.IH"
      by (subst titlePage.simps) (auto simp add: Let_def split: option.splits)
  next
    case False
    then show ?thesis by (subst titlePage.simps) auto
  qed
qed

lemma parseFountain_vars:
  "\<exists>i ttl auths v. titlePage (split_nl txt) 0 [] [] = Inr (i, ttl, auths) \<and>
      body (split_nl txt) i initial_vars = Inr v \<and> parser_inv v \<and>
      parseFountain now txt =
        Inr \<lparr>title = Some (or_else (Some ttl) ''Untitled Script''), authors = Some auths,
             rawText = txt, scenes = v_scenes v, characters = v_characters v,
             locations = v_locations v,
             metadata = \<lparr>format = Fountain, pageCount = None, importedAt = now\<rparr>\<rparr>"
proof -
  obtain i ttl auths where t: "titlePage (split_nl txt) 0 [] [] = Inr (i, ttl, auths)"
    using titlePage_returns[of "split_nl txt" 0 "[]" "[]"] by (metis prod_cases3)
  obtain v where v: "body (split_nl txt) i initial_vars = Inr v" "parser_inv v"
    using body_inv[OF parser_inv_initial] by blast
  show ?thesis using t v by (simp add: parseFountain_def Let_def)
qed


lemma fdxParagraph_inv:
  assumes "parser_inv v"
  shows "\<exists>v'. fdxParagraph para v = Inr v' \<and> parser_inv v'"
proof -
  let ?p = "paragraphType para"
  let ?t = "paragraphText para"
  let ?v1 = "ensure_scene v"
  have i1: "parser_inv ?v1" by (rule parser_inv_ensure_scene[OF assms])
  have n1: "v_scenes ?v1 \<noteq> []" by (rule parser_inv_ensure_scene_nonempty[OF assms])
  from i1 have r1: "refs_ok ?v1" by (simp add: parser_inv_def)
  have cs: "current_scene ?v1 = Inr (length (v_scenes ?v1) - 1, last (v_scenes ?v1))"
    by (rule current_scene_last[OF r1 n1])
  show ?thesis
  proof (cases "?t = []")
    case True
    then show ?thesis using assms by (simp add: fdxParagraph_def Let_def)
  next
    case ne: False
    show ?thesis
    proof (cases "?p = ''scene heading'' \<or> ?p = ''slug line''")
      case True
      then show ?thesis using ne parser_inv_open_scene[OF assms, of ?t]
        by (auto simp add: fdxParagraph_def Let_def)
    next
      case nh: False
      consider (cue) "?p = ''character''" | (dia) "?p = ''dialogue''"
        | (par) "?p = ''parenthetical''" | (tra) "?p = ''transition''"
        | (act) "?p \<noteq> ''character''" "?p \<noteq> ''dialogue''" "?p \<noteq> ''parenthetical''"
                "?p \<noteq> ''transition''"
        by blast
      then show ?thesis
      proof cases
        case cue
        let ?c = "trim (replace_first extension_re ?t)"
        let ?e = "\<lparr>type = Character, content = ?t, character = Some ?c\<rparr>"
        have "fdxParagraph para v = push_content ?e (?v1\<lparr>v_characters := set_add ?c (v_characters ?v1)\<rparr>)"
          using ne nh cue by (simp add: fdxParagraph_def Let_def)
        then show ?thesis using parser_inv_push_character[OF i1 n1, of ?e ?c] by auto
      next
        case dia
        let ?e = "\<lparr>type = Dialogue, content = ?t,
                   character = lastCharacter (scene_content (last (v_scenes ?v1)))\<rparr>"
        have "fdxParagraph para v = push_content ?e ?v1"
          using ne nh dia cs by (simp add: fdxParagraph_def Let_def)
        then show ?thesis using parser_inv_push[OF i1 n1, of ?e] by auto
      next
        case par
        let ?e = "\<lparr>type = Parenthetical, content = ?t, character = None\<rparr>"
        have "fdxParagraph para v = push_content ?e ?v1"
          using ne nh par by (simp add: fdxParagraph_def Let_def)
        then show ?thesis using parser_inv_push[OF i1 n1, of ?e] by auto
      next
        case tra
        let ?e = "\<lparr>type = Transition, content = ?t, character = None\<rparr>"
        have "fdxParagraph para v = push_content ?e ?v1"
          using ne nh tra by (simp add: fdxParagraph_def Let_def)
        then show ?thesis using parser_inv_push[OF i1 n1, of ?e] by auto
      next
        case act
        let ?e = "\<lparr>type = Action, content = ?t, character = None\<rparr>"
        have "fdxParagraph para v = push_content ?e ?v1"
          using ne nh act by (simp add: fdxParagraph_def Let_def)
        then show ?thesis using parser_inv_push[OF i1 n1, of ?e] by auto
      qed
    qed
  qed
qed

lemma fdxParagraphs_inv:
  "parser_inv v \<Longrightarrow> \<exists>v'. fdxParagraphs ps v = Inr v' \<and> parser_inv v'"
proof (induction ps arbitrary: v)
  case Nil
  then show ?case by simp
next
  case (Cons para ps)
  from fdxParagraph_inv[OF Cons.prems, of para] obtain v1
    where v1: "fdxParagraph para v = Inr v1" "parser_inv v1" by blast
  from Cons.IH[OF v1(2)] v1(1) show ?case by simp
qed

lemma set_content_length:
  "set_content es v = Inr v' \<Longrightarrow> length (v_scenes v') = length (v_scenes v)"
  by (auto simp add: set_content_def split: sum.splits)

lemma push_content_length:
  "push_content e v = Inr v' \<Longrightarrow> length (v_scenes v') = length (v_scenes v)"
  by (auto simp add: push_content_def set_content_length split: sum.splits)

lemma ensure_scene_length: "length (v_scenes (ensure_scene v)) \<le> length (v_scenes v) + 1"
  by (simp add: ensure_scene_def Let_def)

lemma open_scene_length: "length (v_scenes (open_scene h v)) = length (v_scenes v) + 1"
  by (simp add: open_scene_def Let_def)

lemma fdxParagraph_length:
  assumes "fdxParagraph para v = Inr v'"
  shows "length (v_scenes v') \<le> length (v_scenes v) + 1"
proof -
  have p: "\<And>e u. push_content e u = Inr v' \<Longrightarrow> v_scenes u = v_scenes (ensure_scene v) \<Longrightarrow>
             length (v_scenes v') \<le> Suc (length (v_scenes v))"
  proof -
    fix e u
    assume "push_content e u = Inr v'" and u: "v_scenes u = v_scenes (ensure_scene v)"
    then have "length (v_scenes v') = length (v_scenes u)" by (simp add: push_content_length)
    with u ensure_scene_length[of v] show "length (v_scenes v') \<le> Suc (length (v_scenes v))" by simp
  qed
  show ?thesis
    using assms open_scene_length[of _ v]
    by (auto simp add: fdxParagraph_def Let_def split: if_splits sum.splits intro: p)
qed

lemma fdxParagraphs_length:
  "fdxParagraphs ps v = Inr v' \<Longrightarrow> length (v_scenes v') \<le> length (v_scenes v) + length ps"
proof (induction ps arbitrary: v)
  case Nil
  then show ?case by simp
next
  case (Cons para ps)
  from Cons.prems obtain v1 where v1: "fdxParagraph para v = Inr v1" "fdxParagraphs ps v1 = Inr v'"
    by (auto split: sum.splits)
  from Cons.IH[OF v1(2)] fdxParagraph_length[OF v1(1)] show ?case by simp
qed

lemma parseFDX_vars:
  "\<exists>v. fdxParagraphs (doc_querySelectorAll (tag_is ''Paragraph'') doc) initial_vars = Inr v \<and>
       parser_inv v \<and>
       parseFDX_document now doc =
         Inr \<lparr>title = Some (fdxTitle doc), authors = Some (fdxAuthors doc),
              rawText = concat (map sceneText (v_scenes v)), scenes = v_scenes v,
              characters = v_characters v, locations = v_locations v,
              metadata = \<lparr>format = Fdx, pageCount = None, importedAt = now\<rparr>\<rparr>"
proof -
  obtain v where v: "fdxParagraphs (doc_querySelectorAll (tag_is ''Paragraph'') doc) initial_vars = Inr v"
    "parser_inv v"
    using fdxParagraphs_inv[OF parser_inv_initial] by blast
  then show ?thesis by (simp add: parseFDX_document_def)
qed




lemma parsed_inv:
  assumes "parseFountain now txt = Inr d \<or> parseFDX parser now' xml = Inr d"
  shows "\<exists>v. parser_inv v \<and> scenes d = v_scenes v \<and> characters d = v_characters v \<and>
             locations d = v_locations v"
proof -
  from assms show ?thesis
  proof
    assume a: "parseFountain now txt = Inr d"
    from parseFountain_vars[of "txt" now] obtain i ttl auths v where
      "parser_inv v"
      "parseFountain now txt =
        Inr \<lparr>title = Some (or_else (Some ttl) ''Untitled Script''), authors = Some auths,
             rawText = txt, scenes = v_scenes v, characters = v_characters v,
             locations = v_locations v,
             metadata = \<lparr>format = Fountain, pageCount = None, importedAt = now\<rparr>\<rparr>"
      by blast
    with a show ?thesis by auto
  next
    assume a: "parseFDX parser now' xml = Inr d"
    from parseFDX_vars[of "parser xml" now'] obtain v where
      "parser_inv v"
      "parseFDX_document now' (parser xml) =
         Inr \<lparr>title = Some (fdxTitle (parser xml)), authors = Some (fdxAuthors (parser xml)),
              rawText = concat (map sceneText (v_scenes v)), scenes = v_scenes v,
              characters = v_characters v, locations = v_locations v,
              metadata = \<lparr>format = Fdx, pageCount = None, importedAt = now'\<rparr>\<rparr>"
      by blast
    with a show ?thesis by (auto simp add: parseFDX_def)
  qed
qed

subsection \<open>The Fountain parser returns\<close>

text \<open>
  C8: for every input string the Fountain parser returns a document. The model has a
  branch for each place where the source could throw (an index out of range, a property of
  \<open>null\<close>), and the loops are total functions; none of the branches is reached.
\<close>

theorem C8_parseFountain_returns: "\<exists>d. parseFountain now source = Inr d"
  using parseFountain_vars[of source now] by blast

subsection \<open>Input that is not well-formed\<close>

text \<open>
  C3, as stated, fails: for the document a browser returns on a source that is not
  well-formed, the parser returns a document without scenes and raises nothing.
\<close>

theorem C3_not_well_formed_counterexample:
  "parseFDX parsererror_document 0 ''not xml'' =
     Inr \<lparr>title = Some ''Untitled Script'', authors = Some [], rawText = [], scenes = [],
          characters = [], locations = [],
          metadata = \<lparr>format = Fdx, pageCount = None, importedAt = 0\<rparr>\<rparr>"
  by code_simp

text \<open>
  C3, amended: for every input string, whatever tree the browser's parser makes of it,
  \<open>parseFDX\<close> returns a document and never fails; the document has at most as many scenes as
  the tree has \<open>Paragraph\<close> elements. (So a tree without \<open>Paragraph\<close> elements, as the one of
  the counterexample, gives a document with zero scenes.)
\<close>

theorem C3_parseFDX_returns:
  "\<exists>d. parseFDX parseFromString now xmlContent = Inr d \<and>
       length (scenes d) \<le>
         length (doc_querySelectorAll (tag_is ''Paragraph'') (parseFromString xmlContent))"
proof -
  from parseFDX_vars[of "parseFromString xmlContent" now] obtain v where
    v: "fdxParagraphs (doc_querySelectorAll (tag_is ''Paragraph'') (parseFromString xmlContent))
          initial_vars = Inr v"
    and d: "parseFDX_document now (parseFromString xmlContent) =
         Inr \<lparr>title = Some (fdxTitle (parseFromString xmlContent)),
              authors = Some (fdxAuthors (parseFromString xmlContent)),
              rawText = concat (map sceneText (v_scenes v)), scenes = v_scenes v,
              characters = v_characters v, locations = v_locations v,
              metadata = \<lparr>format = Fdx, pageCount = None, importedAt = now\<rparr>\<rparr>"
    by blast
  from fdxParagraphs_length[OF v] have "length (v_scenes v) \<le>
      length (doc_querySelectorAll (tag_is ''Paragraph'') (parseFromString xmlContent))"
    by (simp add: initial_vars_def)
  with d show ?thesis by (simp add: parseFDX_def)
qed

subsection \<open>The characters and the locations of a document\<close>






subsection \<open>The speaker of a dialogue\<close>

text \<open>
  C6: in every document of either parser, a dialogue element with a character field has a
  character element before it in the same scene with that name, and no other character
  element lies between the two.
\<close>

theorem C6_dialogue_attribution:
  assumes "parseFountain now source = Inr d \<or> parseFDX parseFromString now' xmlContent = Inr d"
    and "sc \<in> set (scenes d)"
    and "j < length (scene_content sc)"
    and "type (scene_content sc ! j) = Dialogue"
    and "character (scene_content sc ! j) = Some c"
  shows "\<exists>i<j. type (scene_content sc ! i) = Character \<and>
              character (scene_content sc ! i) = Some c \<and>
              (\<forall>k. i < k \<and> k < j \<longrightarrow> type (scene_content sc ! k) \<noteq> Character)"
proof -
  from parsed_inv[OF assms(1)] obtain v where v: "parser_inv v" "scenes d = v_scenes v" by blast
  with assms(2) have "attributed (scene_content sc)" by (simp add: parser_inv_def)
  then show ?thesis using assms(3,4,5) by (rule attributed_pick)
qed

text \<open>C6 at the dialogue of the scenario, the third element of its scene.\<close>

theorem C6_dialogue_attribution_witness:
  "\<exists>i<2. type (scene_content scenario_scene ! i) = Character \<and>
          character (scene_content scenario_scene ! i) = Some ''JOE'' \<and>
          (\<forall>k. i < k \<and> k < 2 \<longrightarrow> type (scene_content scenario_scene ! k) \<noteq> Character)"
proof -
  have "scenario_scene \<in> set (scenes (scenario_document 0))"
    by (simp add: scenario_document_def)
  moreover have "2 < length (scene_content scenario_scene)"
    by (simp add: scenario_scene_def scenario_elements_def)
  moreover have "type (scene_content scenario_scene ! 2) = Dialogue"
    by (simp add: scenario_scene_def scenario_elements_def)
  moreover have "character (scene_content scenario_scene ! 2) = Some ''JOE''"
    by (simp add: scenario_scene_def scenario_elements_def)
  ultimately show ?thesis
    by (rule C6_dialogue_attribution[OF disjI1[OF parseFountain_scenario]])
qed

subsection \<open>The export does not depend on the clock\<close>

lemma same_but_ids_length: "same_but_ids x y \<Longrightarrow> length (x_beats x) = length (x_beats y)"
  by (auto simp add: same_but_ids_def dest: map_eq_imp_length_eq)

lemma beat_fields_nth:
  "map beat_fields bs = map beat_fields cs \<Longrightarrow> k < length bs \<Longrightarrow>
   beat_fields (bs ! k) = beat_fields (cs ! k)"
  by (metis length_map nth_map)

lemma exportElement_same:
  assumes "same_but_ids x y"
  shows "rel_sum (=) same_but_ids (exportElement clock1 scene element x)
           (exportElement clock2 scene element y)"
proof -
  from assms have l: "length (x_beats x) = length (x_beats y)" by (rule same_but_ids_length)
  from assms have m: "map beat_fields (x_beats x) = map beat_fields (x_beats y)"
    and c: "x_beatCounter x = x_beatCounter y" and k: "x_currentBeat x = x_currentBeat y"
    and s: "x_sceneCharacters x = x_sceneCharacters y"
    by (simp_all add: same_but_ids_def)
  show ?thesis
  proof (cases "type element")
    case Action
    then show ?thesis using l m c k s
      by (auto simp add: exportElement_def Let_def same_but_ids_def beat_fields_def
          split: sum.splits)
  next
    case Dialogue
    show ?thesis
    proof (cases "x_currentBeat x")
      case None
      then show ?thesis using Dialogue assms k by (simp add: exportElement_def Let_def)
    next
      case (Some i)
      show ?thesis
      proof (cases "i < length (x_beats x)")
        case True
        from beat_fields_nth[OF m True]
        have w: "beat_fields (x_beats x ! i) = beat_fields (x_beats y ! i)" .
        show ?thesis using Dialogue Some True l m c k s w
          by (simp add: exportElement_def Let_def same_but_ids_def at_index_def map_update
              beat_fields_def)
      next
        case False
        then show ?thesis using Dialogue Some l k
          by (simp add: exportElement_def Let_def at_index_def)
      qed
    qed
  next
    case Parenthetical
    then show ?thesis using assms by (simp add: exportElement_def Let_def)
  next
    case Transition
    then show ?thesis using assms by (simp add: exportElement_def Let_def)
  next
    case Character
    then show ?thesis using assms by (simp add: exportElement_def Let_def same_but_ids_def)
  qed
qed

lemma exportElements_same:
  "same_but_ids x y \<Longrightarrow>
   rel_sum (=) same_but_ids (exportElements clock1 scene es x) (exportElements clock2 scene es y)"
proof (induction es arbitrary: x y)
  case Nil
  then show ?case by simp
next
  case (Cons e es)
  from exportElement_same[OF Cons.prems, of clock1 scene e clock2] Cons.IH
  show ?case
    by (cases "exportElement clock1 scene e x"; cases "exportElement clock2 scene e y") simp_all
qed

lemma filter_location_same:
  "map beat_fields bs = map beat_fields cs \<Longrightarrow>
   length (filter (\<lambda>b. beat_location b = l) bs) = length (filter (\<lambda>b. beat_location b = l) cs)"
proof (induction bs arbitrary: cs)
  case Nil
  then show ?case by simp
next
  case (Cons b bs)
  then obtain c cs' where cs: "cs = c # cs'" by (cases cs) auto
  with Cons.prems have w: "beat_fields b = beat_fields c"
    and r: "map beat_fields bs = map beat_fields cs'"
    by simp_all
  from w have "beat_location b = beat_location c" by (simp add: beat_fields_def)
  with Cons.IH[OF r] cs show ?case by simp
qed

lemma exportScene_same:
  assumes "same_beats p q"
  shows "rel_sum (=) same_beats (exportScene clock1 scene p) (exportScene clock2 scene q)"
proof -
  let ?x = "\<lparr>x_beats = fst p, x_beatCounter = snd p, x_currentBeat = None, x_sceneCharacters = []\<rparr>"
  let ?y = "\<lparr>x_beats = fst q, x_beatCounter = snd q, x_currentBeat = None, x_sceneCharacters = []\<rparr>"
  from assms have "same_but_ids ?x ?y" by (simp add: same_beats_def same_but_ids_def)
  from exportElements_same[OF this, of clock1 scene "scene_content scene" clock2]
  have r: "rel_sum (=) same_but_ids (exportElements clock1 scene (scene_content scene) ?x)
             (exportElements clock2 scene (scene_content scene) ?y)" .
  show ?thesis
  proof (cases "exportElements clock1 scene (scene_content scene) ?x")
    case (Inl a)
    with r show ?thesis
      by (cases "exportElements clock2 scene (scene_content scene) ?y") (simp_all add: exportScene_def)
  next
    case xr: (Inr x)
    with r obtain y where yr: "exportElements clock2 scene (scene_content scene) ?y = Inr y"
      and xy: "same_but_ids x y"
      by (cases "exportElements clock2 scene (scene_content scene) ?y") simp_all
    from xy have m: "map beat_fields (x_beats x) = map beat_fields (x_beats y)"
      and c: "x_beatCounter x = x_beatCounter y" and s: "x_sceneCharacters x = x_sceneCharacters y"
      by (simp_all add: same_but_ids_def)
    show ?thesis using xr yr m c s filter_location_same[OF m, of "location scene"]
      by (auto simp add: exportScene_def Let_def same_beats_def beat_fields_def split: sum.splits)
  qed
qed

lemma exportScenes_same:
  "same_beats p q \<Longrightarrow>
   rel_sum (=) same_beats (exportScenes clock1 ss p) (exportScenes clock2 ss q)"
proof (induction ss arbitrary: p q)
  case Nil
  then show ?case by simp
next
  case (Cons sc ss)
  from exportScene_same[OF Cons.prems, of clock1 sc clock2] Cons.IH
  show ?case
    by (cases "exportScene clock1 sc p"; cases "exportScene clock2 sc q") simp_all
qed

text \<open>
  C9: two runs of the extractor on one document, each with its own clock, either both fail
  or return beat sequences of the same length whose beats agree in characters, action,
  dialogue, location, camera and lighting; only the ids may differ.
\<close>

theorem C9_export_twice:
  "map_sum id (map beat_fields \<circ> beats) (exportToDirector clock1 parsed) =
   map_sum id (map beat_fields \<circ> beats) (exportToDirector clock2 parsed)"
proof -
  have "same_beats ([], 0) ([], 0)" by (simp add: same_beats_def)
  from exportScenes_same[OF this, of clock1 "scenes parsed" clock2]
  show ?thesis
    by (cases "exportScenes clock1 (scenes parsed) ([], 0)";
        cases "exportScenes clock2 (scenes parsed) ([], 0)")
       (auto simp add: exportToDirector_def same_beats_def)
qed

subsection \<open>A scene without action\<close>

lemma exportElements_no_action:
  "\<forall>e\<in>set es. type e \<noteq> Action \<Longrightarrow> x_currentBeat x = None \<Longrightarrow>
   exportElements clock scene es x =
     Inr (x\<lparr>x_sceneCharacters := x_sceneCharacters x @ cue_characters es\<rparr>)"
proof (induction es arbitrary: x)
  case Nil
  then show ?case by (simp add: cue_characters_def)
next
  case (Cons e es)
  let ?x1 = "if type e = Character
             then x\<lparr>x_sceneCharacters := x_sceneCharacters x @ [character e]\<rparr> else x"
  from Cons.prems have "exportElement clock scene e x = Inr ?x1"
    by (simp add: exportElement_def Let_def)
  moreover from Cons.prems have "x_currentBeat ?x1 = None" by simp
  moreover from Cons.prems have "\<forall>e\<in>set es. type e \<noteq> Action" by simp
  ultimately show ?case using Cons.IH[of ?x1]
    by (simp add: cue_characters_def)
qed

lemma two_scenes_cameras:
  "map_sum id (map camera \<circ> beats) (exportToDirector (\<lambda>n. 0) two_scenes_one_location) =
     Inr [''Standard'']"
  by code_simp

text \<open>
  C4, as stated, fails: the second scene of the document has no action element and gets no
  beat, because the first scene has made a beat for the same location. The export holds one
  beat only, the standard beat of the first scene.
\<close>

theorem C4_same_location_counterexample:
  "list_all (\<lambda>e. type e \<noteq> Action) (scene_content (scenes two_scenes_one_location ! 1)) \<and>
   map_sum id (map camera \<circ> beats) (exportToDirector (\<lambda>n. 0) two_scenes_one_location) =
     Inr [''Standard'']"
  by (simp add: two_scenes_cameras) (simp add: two_scenes_one_location_def)

text \<open>
  C4, amended: for a scene without action elements the extractor appends exactly one beat
  when none of the beats made so far, for this scene or an earlier one, has the location of
  the scene, and no beat otherwise. The beat has the heading as action, the camera
  \<open>Establishing\<close>, the location of the scene, and as characters the handles of the names of
  the character elements of the scene, the names without duplicates. (Making the handles
  fails when a character element has no name.)
\<close>

theorem C4_scene_without_action:
  assumes "\<forall>e\<in>set (scene_content scene). type e \<noteq> Action"
  shows "exportScene clock scene (bs, n) =
           (if \<exists>b\<in>set bs. beat_location b = location scene then Inr (bs, n)
            else (case handles (new_Set (cue_characters (scene_content scene))) of
                    Inl err \<Rightarrow> Inl err
                  | Inr hs \<Rightarrow> Inr (bs @ [establishing clock scene (n + 1) hs], n + 1)))"
proof -
  let ?x = "\<lparr>x_beats = bs, x_beatCounter = n, x_currentBeat = None, x_sceneCharacters = []\<rparr>"
  have e: "exportElements clock scene (scene_content scene) ?x =
          Inr (?x\<lparr>x_sceneCharacters := cue_characters (scene_content scene)\<rparr>)"
    using exportElements_no_action[OF assms, of ?x clock scene] by simp
  have f: "(filter (\<lambda>b. beat_location b = location scene) bs = []) =
           (\<forall>b\<in>set bs. beat_location b \<noteq> location scene)"
    by (simp add: filter_empty_conv)
  show ?thesis
    by (simp add: exportScene_def e f Let_def establishing_def split: sum.splits)
qed

lemma scenario_scene_handles:
  "handles (new_Set (cue_characters (scene_content scenario_scene))) = Inr [''@JOE'']"
  by code_simp

text \<open>The amended C4 at the scene of the scenario, as the first scene of an export.\<close>

theorem C4_scene_without_action_witness:
  "exportScene (\<lambda>n. 0) scenario_scene ([], 0) =
     Inr ([establishing (\<lambda>n. 0) scenario_scene 1 [''@JOE'']], 1)"
proof -
  have "\<forall>e\<in>set (scene_content scenario_scene). type e \<noteq> Action"
    by (simp add: scenario_scene_def scenario_elements_def)
  from C4_scene_without_action[OF this, of "\<lambda>n. 0" "[]" 0] show ?thesis
    by (simp add: scenario_scene_handles)
qed

subsection \<open>A line after a dialogue\<close>









subsection \<open>The location and the time of day of a heading\<close>








































end
